theory Spec2Isabelle
  imports Complex_Main "HOL-Library.Sublist"
begin

section \<open>Python values\<close>

text \<open>
  The metric values of the repository are Python ints, Python floats or \<open>None\<close>.
  An int is an unbounded integer; a float is modelled by the real number it stands for
  (rounding of IEEE doubles is outside the model). \<open>None\<close> is the \<open>None\<close> of
  \<open>num option\<close>.

  A dictionary with string keys is a map. For a dictionary \<open>d\<close> of metric values,
  \<open>d k = None\<close> says that the key \<open>k\<close> is not in the dictionary, and
  \<open>d k = Some None\<close> that the key is there with the value \<open>None\<close>.
\<close>

datatype num = PInt int | PFloat real

type_synonym metrics = "string \<rightharpoonup> num option"

datatype py_exception = PyException string

fun to_real :: "num \<Rightarrow> real" where
  "to_real (PInt i) = real_of_int i"
| "to_real (PFloat x) = x"

text \<open>\<open>d.get(k)\<close>: a missing key and a key bound to \<open>None\<close> both give \<open>None\<close>.\<close>

definition dict_get :: "metrics \<Rightarrow> string \<Rightarrow> num option" where
  "dict_get d k = (case d k of None \<Rightarrow> None | Some v \<Rightarrow> v)"

text \<open>
  \<open>min(values)\<close> and \<open>max(values)\<close> of Python on a list that starts with \<open>v\<close>: the list
  is scanned from the left, and the candidate is replaced only by a strictly smaller
  (strictly larger) item, so the first of several equal items is returned, with its own
  type.
\<close>

fun py_min_from :: "num \<Rightarrow> num list \<Rightarrow> num" where
  "py_min_from cur [] = cur"
| "py_min_from cur (x # xs) = py_min_from (if to_real x < to_real cur then x else cur) xs"

fun py_max_from :: "num \<Rightarrow> num list \<Rightarrow> num" where
  "py_max_from cur [] = cur"
| "py_max_from cur (x # xs) = py_max_from (if to_real x > to_real cur then x else cur) xs"

text \<open>\<open>numpy.mean\<close> of a list of numbers, as the exact quotient.\<close>

definition np_mean :: "num list \<Rightarrow> real" where
  "np_mean xs = sum_list (map to_real xs) / real (length xs)"

section \<open>Strings\<close>

text \<open>
  File contents and file names are \<open>string\<close>s. \<open>str.splitlines\<close> and \<open>str.strip\<close> are
  modelled on the 7-bit characters: the line boundaries are LF, CR, CR LF, VT, FF, FS, GS
  and RS, and the white space is TAB, LF, VT, FF, CR, FS, GS, RS, US and the blank.
\<close>

definition line_boundary :: "char \<Rightarrow> bool" where
  "line_boundary c = (of_char c \<in> {10, 11, 12, 13, 28, 29, 30 :: nat})"

definition py_space :: "char \<Rightarrow> bool" where
  "py_space c = (of_char c \<in> {9, 10, 11, 12, 13, 28, 29, 30, 31, 32 :: nat})"

fun split_from :: "string \<Rightarrow> string \<Rightarrow> string list" where
  "split_from cur [] = (if cur = [] then [] else [cur])"
| "split_from cur [c] = (if line_boundary c then [cur] else [cur @ [c]])"
| "split_from cur (c # d # cs) =
     (if of_char c = (13 :: nat) \<and> of_char d = (10 :: nat) then cur # split_from [] cs
      else if line_boundary c then cur # split_from [] (d # cs)
      else split_from (cur @ [c]) (d # cs))"

definition splitlines :: "string \<Rightarrow> string list" where
  "splitlines s = split_from [] s"

definition strip :: "string \<Rightarrow> string" where
  "strip s = rev (dropWhile py_space (rev (dropWhile py_space s)))"

definition startswith :: "string \<Rightarrow> string \<Rightarrow> bool" where
  "startswith s p = (take (length p) s = p)"

definition endswith :: "string \<Rightarrow> string \<Rightarrow> bool" where
  "endswith s p = (length p \<le> length s \<and> drop (length s - length p) s = p)"

section \<open>feature\_extraction.py: the syntax tree visitor\<close>

text \<open>
  A node of Python's \<open>ast\<close> is its class and its child nodes, in the order in which
  \<open>ast.iter_fields\<close> gives them. The classes the visitor tells apart are named; every
  other class (\<open>Module\<close>, \<open>Expr\<close>, \<open>AsyncFor\<close>, \<open>arguments\<close>, ...) is
  \<open>ast_Other\<close> with its name. A \<open>FunctionDef\<close> carries what \<open>visit_FunctionDef\<close> reads
  of \<open>node.args\<close>: the length of \<open>args.args\<close>, and whether \<open>args.vararg\<close> and
  \<open>args.kwarg\<close> are there.
\<close>

datatype node_kind =
    ast_FunctionDef nat bool bool
  | ast_Call
  | ast_If
  | ast_For
  | ast_While
  | ast_With
  | ast_Try
  | ast_Other string

datatype node = Node node_kind "node list"

record visitor =
  max_depth :: int
  current_depth :: int
  func_defs :: int
  max_func_args :: int
  total_calls :: int
  total_if :: int
  total_loops :: int

text \<open>\<open>ASTMetricsVisitor.__init__\<close>\<close>

definition ASTMetricsVisitor :: visitor where
  "ASTMetricsVisitor = \<lparr>max_depth = 0, current_depth = 0, func_defs = 0, max_func_args = 0,
     total_calls = 0, total_if = 0, total_loops = 0\<rparr>"

text \<open>\<open>isinstance(node, (ast.If, ast.For, ast.While, ast.With, ast.Try))\<close>\<close>

definition isinstance_nesting :: "node_kind \<Rightarrow> bool" where
  "isinstance_nesting k =
     (k = ast_If \<or> k = ast_For \<or> k = ast_While \<or> k = ast_With \<or> k = ast_Try)"

text \<open>
  \<open>visit\<close> is \<open>NodeVisitor.visit\<close>: it calls the method \<open>visit_<class>\<close> of the
  visitor when there is one, and \<open>generic_visit\<close> otherwise. \<open>generic_visit\<close> is the
  override of the class; its call of \<open>super().generic_visit(node)\<close> visits every child,
  which is \<open>visit_fields\<close>.
\<close>

fun visit :: "node \<Rightarrow> visitor \<Rightarrow> visitor"
and generic_visit :: "node \<Rightarrow> visitor \<Rightarrow> visitor"
and visit_fields :: "node list \<Rightarrow> visitor \<Rightarrow> visitor" where
  "visit (Node k cs) v =
     (case k of
        ast_FunctionDef n va kw \<Rightarrow>
          generic_visit (Node k cs)
            (v\<lparr>func_defs := func_defs v + 1,
               max_func_args := max (max_func_args v)
                  (int n + (if va then 1 else 0) + (if kw then 1 else 0))\<rparr>)
      | ast_Call \<Rightarrow> generic_visit (Node k cs) (v\<lparr>total_calls := total_calls v + 1\<rparr>)
      | ast_If \<Rightarrow> generic_visit (Node k cs) (v\<lparr>total_if := total_if v + 1\<rparr>)
      | ast_For \<Rightarrow> generic_visit (Node k cs) (v\<lparr>total_loops := total_loops v + 1\<rparr>)
      | ast_While \<Rightarrow> generic_visit (Node k cs) (v\<lparr>total_loops := total_loops v + 1\<rparr>)
      | _ \<Rightarrow> generic_visit (Node k cs) v)"
| "generic_visit (Node k cs) v =
     (let old_depth = current_depth v;
          v1 = (if isinstance_nesting k
                then (let v' = v\<lparr>current_depth := current_depth v + 1\<rparr>
                      in v'\<lparr>max_depth := max (max_depth v') (current_depth v')\<rparr>)
                else v);
          v2 = visit_fields cs v1
      in v2\<lparr>current_depth := old_depth\<rparr>)"
| "visit_fields [] v = v"
| "visit_fields (c # cs) v = visit_fields cs (visit c v)"

text \<open>
  The nesting depth in the words of the specification: a path is the list of classes met
  from the root of the tree down to some node; its nesting is the number of conditional,
  loop, exception-handling and resource-scope constructs on it; the depth of the tree is
  the largest nesting of a path.
\<close>

fun paths :: "node \<Rightarrow> node_kind list list" where
  "paths (Node k cs) = [k] # map ((#) k) (concat (map paths cs))"

definition nesting_construct :: "node_kind \<Rightarrow> bool" where
  "nesting_construct k = (k \<in> {ast_If, ast_For, ast_While, ast_Try, ast_With})"

definition nesting_on_path :: "node_kind list \<Rightarrow> nat" where
  "nesting_on_path p = length (filter nesting_construct p)"

fun maxlist :: "nat list \<Rightarrow> nat" where
  "maxlist [] = 0"
| "maxlist (x # xs) = max x (maxlist xs)"

definition max_simultaneous_nesting :: "node \<Rightarrow> nat" where
  "max_simultaneous_nesting t = maxlist (map nesting_on_path (paths t))"

text \<open>The running total that the depth is not: the number of nesting constructs of the tree.\<close>

fun total_constructs :: "node \<Rightarrow> nat" where
  "total_constructs (Node k cs) =
     (if nesting_construct k then 1 else 0) + sum_list (map total_constructs cs)"

section \<open>feature\_extraction.py: the metrics of one file\<close>

text \<open>
  \<open>ast.parse\<close>, \<open>radon.raw.analyze\<close> and \<open>radon.complexity.cc_visit\<close> are libraries,
  not code of the repository: they are parameters of the model. Each takes the text of
  a file and returns its result or raises. \<open>raw_module\<close> is radon's \<open>Module\<close> tuple,
  and the result of \<open>cc_visit\<close> is given by the \<open>complexity\<close> of each block it returns.
\<close>

record raw_module =
  raw_loc :: int
  raw_lloc :: int
  raw_sloc :: int
  raw_comments :: int
  raw_multi :: int
  raw_blank :: int

record py_libs =
  ast_parse :: "string \<Rightarrow> py_exception + node"
  raw_analyze :: "string \<Rightarrow> py_exception + raw_module"
  cc_visit :: "string \<Rightarrow> py_exception + int list"

text \<open>
  \<open>compute_python_metrics\<close>: three \<open>try\<close> blocks, each with \<open>except Exception\<close>. The
  traversal of the tree is inside the first one: the dictionary \<open>ast_metrics\<close> is built
  after \<open>visitor.visit(tree)\<close> has returned. (The traversal of the model is total;
  Python's can stop with a \<open>RecursionError\<close> on a very deep tree, which the same
  \<open>except\<close> turns into the six \<open>None\<close>.)
\<close>

definition ast_metrics_of :: "py_exception + node \<Rightarrow> metrics" where
  "ast_metrics_of parsed =
     (case parsed of
        Inr tree \<Rightarrow>
          (let visitor = visit tree ASTMetricsVisitor
           in [''max_nesting'' \<mapsto> Some (PInt (max_depth visitor)),
               ''func_count'' \<mapsto> Some (PInt (func_defs visitor)),
               ''max_args'' \<mapsto> Some (PInt (max_func_args visitor)),
               ''call_count'' \<mapsto> Some (PInt (total_calls visitor)),
               ''if_count'' \<mapsto> Some (PInt (total_if visitor)),
               ''loop_count'' \<mapsto> Some (PInt (total_loops visitor))])
      | Inl e \<Rightarrow>
          [''max_nesting'' \<mapsto> None, ''func_count'' \<mapsto> None, ''max_args'' \<mapsto> None,
           ''call_count'' \<mapsto> None, ''if_count'' \<mapsto> None, ''loop_count'' \<mapsto> None])"

definition compute_python_metrics :: "py_libs \<Rightarrow> string \<Rightarrow> metrics" where
  "compute_python_metrics libs file_content =
     (let ast_metrics = ast_metrics_of (ast_parse libs file_content);
          (loc, lloc, sloc, comments, multi, blank) =
             (case raw_analyze libs file_content of
                Inr raw \<Rightarrow> (Some (PInt (raw_loc raw)), Some (PInt (raw_lloc raw)),
                            Some (PInt (raw_sloc raw)), Some (PInt (raw_comments raw)),
                            Some (PInt (raw_multi raw)), Some (PInt (raw_blank raw)))
              | Inl e \<Rightarrow> (None, None, None, None, None, None));
          (avg_cc, max_cc) =
             (case cc_visit libs file_content of
                Inr cc_scores \<Rightarrow>
                  (case cc_scores of
                     c # cs \<Rightarrow> (Some (PFloat (np_mean (map PInt (c # cs)))),
                                Some (PFloat (real_of_int (fold max cs c))))
                   | [] \<Rightarrow> (None, None))
              | Inl e \<Rightarrow> (None, None))
      in ast_metrics
           (''avg_cc'' \<mapsto> avg_cc, ''max_cc'' \<mapsto> max_cc, ''loc'' \<mapsto> loc, ''lloc'' \<mapsto> lloc,
            ''sloc'' \<mapsto> sloc, ''comments'' \<mapsto> comments, ''multi_comments'' \<mapsto> multi,
            ''blank'' \<mapsto> blank))"

text \<open>\<open>compute_basic_metrics\<close>: the dictionary literal of the source, key by key.\<close>

definition comment_leader :: "string \<Rightarrow> bool" where
  "comment_leader l =
     (startswith l ''#'' \<or> startswith l ''//'' \<or> startswith l ''/*'' \<or> startswith l ''*'')"

definition compute_basic_metrics :: "string \<Rightarrow> metrics" where
  "compute_basic_metrics content =
     (let lines = splitlines content;
          loc = int (length lines);
          blank = int (length (filter (\<lambda>l. strip l = []) lines));
          comments = int (length (filter (\<lambda>l. comment_leader (strip l)) lines));
          sloc = loc - blank - comments
      in [''loc'' \<mapsto> Some (PInt loc), ''sloc'' \<mapsto> Some (PInt sloc),
          ''blank'' \<mapsto> Some (PInt blank), ''comments'' \<mapsto> Some (PInt comments),
          ''multi_comments'' \<mapsto> None,
          ''max_nesting'' \<mapsto> None, ''func_count'' \<mapsto> None, ''max_args'' \<mapsto> None,
          ''call_count'' \<mapsto> None, ''if_count'' \<mapsto> None,
          ''loop_count'' \<mapsto> None,
          ''avg_cc'' \<mapsto> None, ''max_cc'' \<mapsto> None])"

text \<open>The 14 metric keys: the list \<open>keys\<close> of \<open>aggregate_file_metrics\<close>.\<close>

definition metric_keys :: "string list" where
  "metric_keys = [''max_nesting'', ''func_count'', ''max_args'', ''call_count'', ''if_count'',
     ''loop_count'', ''avg_cc'', ''max_cc'', ''loc'', ''lloc'', ''sloc'', ''comments'',
     ''multi_comments'', ''blank'']"

text \<open>
  A file dictionary is made by \<open>fetch_single_pr\<close> with the keys \<open>filename\<close> and
  \<open>content\<close>; the only other keys it ever gets are the metric keys, written by
  \<open>f.update(...)\<close> in \<open>build_initial_pr_dataframe\<close>. The record keeps the two first
  keys as fields and the metric keys as a dictionary.
\<close>

record file_dict =
  filename :: string
  content :: "string option"
  metric_fields :: metrics

text \<open>
  The body of the loop over the files in \<open>build_initial_pr_dataframe\<close>: a file with no
  content is skipped; the suffix \<open>.py\<close> selects the extractor; \<open>f.update\<close> adds the
  returned keys to the file dictionary.
\<close>

definition has_content :: "file_dict \<Rightarrow> bool" where
  "has_content f = (case content f of None \<Rightarrow> False | Some c \<Rightarrow> c \<noteq> [])"

definition extract_file :: "py_libs \<Rightarrow> file_dict \<Rightarrow> file_dict" where
  "extract_file libs f =
     (case content f of
        None \<Rightarrow> f
      | Some c \<Rightarrow>
          if c = [] then f
          else if endswith (filename f) ''.py''
          then f\<lparr>metric_fields := metric_fields f ++ compute_python_metrics libs c\<rparr>
          else f\<lparr>metric_fields := metric_fields f ++ compute_basic_metrics c\<rparr>)"

section \<open>feature\_extraction.py: the aggregator\<close>

text \<open>
  \<open>aggregate_file_metrics\<close> reads \<open>pr.get("files_metrics", []) or []\<close>: its argument
  here is that value of the pull request dictionary, \<open>None\<close> when the key is bound to
  \<open>None\<close>. \<open>values_of\<close> is the list comprehension of the loop, \<open>aggregate_key\<close> the
  body of the loop for one key.
\<close>

definition values_of :: "string \<Rightarrow> file_dict list \<Rightarrow> num list" where
  "values_of key fs = List.map_filter (\<lambda>f. dict_get (metric_fields f) key) fs"

definition aggregate_key :: "file_dict list \<Rightarrow> string \<Rightarrow> metrics \<Rightarrow> metrics" where
  "aggregate_key fs key agg =
     (case values_of key fs of
        v # vs \<Rightarrow>
          agg(''min_'' @ key \<mapsto> Some (py_min_from v vs),
              ''avg_'' @ key \<mapsto> Some (PFloat (np_mean (v # vs))),
              ''max_'' @ key \<mapsto> Some (py_max_from v vs))
      | [] \<Rightarrow> agg(''min_'' @ key \<mapsto> None, ''avg_'' @ key \<mapsto> None, ''max_'' @ key \<mapsto> None))"

definition aggregate_file_metrics :: "file_dict list option \<Rightarrow> metrics" where
  "aggregate_file_metrics files_metrics_value =
     (let files_metrics = (case files_metrics_value of None \<Rightarrow> [] | Some fs \<Rightarrow> fs)
      in fold (aggregate_key files_metrics) metric_keys Map.empty)"

section \<open>feature\_extraction.py: the keyword labels\<close>






















section \<open>github\_utils.py: fetching one pull request\<close>

text \<open>
  The hosting service is not code of the repository. \<open>api_pull\<close> is what the code
  reads of a PyGithub \<open>PullRequest\<close> (a time stamp is the string its \<open>isoformat()\<close>
  gives, the user is the login); \<open>github_responses\<close> holds the outcome of each
  \<open>_safe_github_call\<close> that \<open>fetch_single_pr\<close> makes, in the order of the source: the
  value returned, or the exception that \<open>_safe_github_call\<close> lets through. (A call
  that waits for the rate limit for ever has no outcome and is outside the model.)
\<close>

record api_pull =
  api_number :: int
  api_title :: "string option"
  api_body :: "string option"
  api_created_at :: "string option"
  api_closed_at :: "string option"
  api_merged_at :: "string option"
  api_additions :: "int option"
  api_deletions :: "int option"
  api_changed_files :: "int option"
  api_commits :: "int option"
  api_user :: "string option"
  api_head_sha :: string

record api_comment =
  comment_user :: "string option"
  comment_created_at :: "string option"

record api_commit =
  commit_author :: "string option"
  commit_date :: "string option"
  commit_sha :: string

record github_responses =
  get_repo :: "py_exception + unit"
  get_pull :: "py_exception + api_pull"
  get_issue_comments :: "py_exception + api_comment list"
  get_commits :: "py_exception + api_commit list"
  get_commits_again :: "py_exception + api_commit list"
  get_files :: "py_exception + string list"
  get_contents :: "string \<Rightarrow> string \<Rightarrow> py_exception + string"

text \<open>The dictionary \<open>pr_dict\<close> that \<open>fetch_single_pr\<close> returns, key by key.\<close>

record pr_dict =
  number :: int
  title :: "string option"
  body :: "string option"
  created_at :: "string option"
  closed_at :: "string option"
  merged_at :: "string option"
  additions :: int
  deletions :: int
  changed_files :: int
  commits :: int
  author :: "string option"
  comments_list :: "(string option \<times> string option) list"
  reviewers_list :: "string list"
  commits_list :: "(string option \<times> string option) list option"
  files_metrics :: "file_dict list option"

text \<open>\<open>x or None\<close> on a string, and \<open>x or -1\<close> on a count: Python's \<open>or\<close> returns its
  right operand when the left one is falsy, and \<open>None\<close>, \<open>""\<close> and \<open>0\<close> are falsy.\<close>

definition str_or_None :: "string option \<Rightarrow> string option" where
  "str_or_None x = (case x of None \<Rightarrow> None | Some t \<Rightarrow> if t = [] then None else Some t)"

definition int_or :: "int option \<Rightarrow> int \<Rightarrow> int" where
  "int_or x d = (case x of None \<Rightarrow> d | Some n \<Rightarrow> if n = 0 then d else n)"

definition fetch_files :: "github_responses \<Rightarrow> api_pull \<Rightarrow> file_dict list option" where
  "fetch_files r pr =
     (case get_commits_again r of
        Inl e \<Rightarrow> None
      | Inr cs \<Rightarrow>
          (let last_sha = (if cs \<noteq> [] then commit_sha (last cs) else api_head_sha pr)
           in case get_files r of
                Inl e \<Rightarrow> None
              | Inr files \<Rightarrow>
                  Some (map (\<lambda>f. \<lparr>filename = f,
                                  content = (case get_contents r f last_sha of
                                               Inl e \<Rightarrow> None | Inr c \<Rightarrow> Some c),
                                  metric_fields = Map.empty\<rparr>) files)))"

definition fetch_single_pr :: "github_responses \<Rightarrow> py_exception + pr_dict" where
  "fetch_single_pr r =
     (case get_repo r of
        Inl e \<Rightarrow> Inl e
      | Inr repo \<Rightarrow>
          (case get_pull r of
             Inl e \<Rightarrow> Inl e
           | Inr pr \<Rightarrow>
               Inr \<lparr>number = api_number pr,
                    title = str_or_None (api_title pr),
                    body = str_or_None (api_body pr),
                    created_at = api_created_at pr,
                    closed_at = api_closed_at pr,
                    merged_at = api_merged_at pr,
                    additions = int_or (api_additions pr) (- 1),
                    deletions = int_or (api_deletions pr) (- 1),
                    changed_files = int_or (api_changed_files pr) (- 1),
                    commits = int_or (api_commits pr) (- 1),
                    author = api_user pr,
                    comments_list =
                      (case get_issue_comments r of
                         Inl e \<Rightarrow> []
                       | Inr cs \<Rightarrow> map (\<lambda>c. (comment_user c, comment_created_at c)) cs),
                    reviewers_list =
                      (case get_issue_comments r of
                         Inl e \<Rightarrow> []
                       | Inr cs \<Rightarrow> remdups (List.map_filter comment_user cs)),
                    commits_list =
                      (case get_commits r of
                         Inl e \<Rightarrow> None
                       | Inr cs \<Rightarrow> Some (map (\<lambda>c. (commit_author c, commit_date c)) cs)),
                    files_metrics = fetch_files r pr\<rparr>))"

section \<open>main.py: listing the pull requests\<close>

definition TARGET_PRS_WITH_PYTHON :: int where
  "TARGET_PRS_WITH_PYTHON = 2500"

definition FETCH_BATCH_SIZE :: int where
  "FETCH_BATCH_SIZE = 200"

definition SAVE_EVERY :: int where
  "SAVE_EVERY = 25"

text \<open>
  \<open>fetch_pr_list_descending\<close>. The listing of the host is a list of pages, each a list of
  pull requests; \<open>pulls.get_page(p)\<close> is page \<open>p\<close> of it, and the empty list past the
  last page. \<open>page_items_loop\<close> is the \<open>for\<close> loop over one page, \<open>pages_loop\<close> the
  \<open>while\<close> loop over the pages. The call of the host can raise (\<open>_safe_github_call\<close>
  lets a \<open>GithubException\<close> through): then the function raises.
\<close>

fun page_items_loop :: "int option \<Rightarrow> int \<Rightarrow> api_pull list \<Rightarrow> api_pull list \<Rightarrow> api_pull list" where
  "page_items_loop max_pr_number max_prs [] all_prs = all_prs"
| "page_items_loop max_pr_number max_prs (pr # rest) all_prs =
     (if (case max_pr_number of None \<Rightarrow> False | Some m \<Rightarrow> api_number pr \<ge> m)
      then page_items_loop max_pr_number max_prs rest all_prs
      else if api_merged_at pr \<noteq> None
      then page_items_loop max_pr_number max_prs rest all_prs
      else (let all_prs' = all_prs @ [pr]
            in if int (length all_prs') \<ge> max_prs then all_prs'
               else page_items_loop max_pr_number max_prs rest all_prs'))"

fun pages_loop :: "int option \<Rightarrow> int \<Rightarrow> api_pull list list \<Rightarrow> api_pull list \<Rightarrow> api_pull list" where
  "pages_loop max_pr_number max_prs [] all_prs = all_prs"
| "pages_loop max_pr_number max_prs (page_items # later) all_prs =
     (if int (length all_prs) < max_prs
      then (if page_items = [] then all_prs
            else pages_loop max_pr_number max_prs later
                   (page_items_loop max_pr_number max_prs page_items all_prs))
      else all_prs)"

definition fetch_pr_list_descending ::
  "py_exception + api_pull list list \<Rightarrow> int option \<Rightarrow> int \<Rightarrow> py_exception + api_pull list" where
  "fetch_pr_list_descending listing max_pr_number max_prs =
     (case listing of
        Inl e \<Rightarrow> Inl e
      | Inr pages \<Rightarrow> Inr (pages_loop max_pr_number max_prs pages []))"

section \<open>main.py: the state of a run\<close>

text \<open>
  The checkpoint is the JSON object of \<open>metadata.json\<close>; its array of processed numbers
  is read with \<open>set(...)\<close> and written with \<open>list(...)\<close> of a set, so it is a set here.
\<close>

record checkpoint =
  meta_processed_pr_numbers :: "int set"
  meta_processed_with_python :: int
  meta_csv_file_counter :: int
  meta_lowest_pr_number :: "int option"

text \<open>
  \<open>run_state\<close> holds the local variables of \<open>process_repository\<close>, under their names,
  and what the run does to the world: the content of \<open>metadata.json\<close> (\<open>None\<close> when
  there is no readable file), \<open>csv_log\<close>, one entry for each call of
  \<open>_save_batch_to_separate_csv\<close> on a batch that is not empty (the counter in the name of
  the file, the rows handed over, and the \<open>rows_saved\<close> returned), and \<open>submitted\<close>,
  the number of every pull request handed to \<open>executor.submit(fetch_single_pr, ...)\<close>.
\<close>

record run_state =
  existing_pr_numbers :: "int set"
  processed_with_python :: int
  csv_file_counter :: int
  lowest_pr_number :: "int option"
  df_rows :: "pr_dict list"
  skipped_no_python :: int
  metadata_file :: "checkpoint option"
  csv_log :: "(int \<times> pr_dict list \<times> nat) list"
  submitted :: "int list"

text \<open>
  What the run cannot decide. All of it is indexed so that two calls can differ: by the
  number of the listing pass (0 for the first pass of the run), and for the files by the
  value of \<open>csv_file_counter\<close>, which grows with every attempt to write.
  \<^item> \<open>list_pulls k\<close>: the listing of the host at pass \<open>k\<close>, or the exception raised;
  \<^item> \<open>respond k n\<close>: the answers of the host to \<open>fetch_single_pr\<close> for number \<open>n\<close>;
  \<^item> \<open>completion k\<close>: the order in which \<open>as_completed\<close> yields the futures of pass
    \<open>k\<close>, as a list of choices among the futures still pending;
  \<^item> \<open>csv_rows_read_back c rows\<close>: the number of rows \<open>pd.read_csv\<close> finds in the
    file just written, and 0 when building the frame, writing or reading back raised or
    the file is not there;
  \<^item> \<open>metadata_write c\<close>: what became of \<open>metadata.json\<close> in \<open>_save_metadata\<close>.
\<close>

datatype write_outcome = Written | NotOpened | Truncated

record host =
  list_pulls :: "nat \<Rightarrow> py_exception + api_pull list list"
  respond :: "nat \<Rightarrow> int \<Rightarrow> github_responses"
  completion :: "nat \<Rightarrow> nat list"
  csv_rows_read_back :: "int \<Rightarrow> pr_dict list \<Rightarrow> nat"
  metadata_write :: "int \<Rightarrow> write_outcome"

text \<open>
  \<open>as_completed\<close> yields every future once. A choice \<open>c\<close> takes the pending future at
  position \<open>c mod n\<close> of the \<open>n\<close> pending ones; when the choices run out the rest
  completes in the order of submission.
\<close>

fun completion_order :: "nat list \<Rightarrow> 'a list \<Rightarrow> 'a list" where
  "completion_order [] xs = xs"
| "completion_order (c # choices) xs =
     (if xs = [] then []
      else (let i = c mod length xs
            in xs ! i # completion_order choices (take i xs @ drop (Suc i) xs)))"

text \<open>
  The first lines of \<open>process_repository\<close>: \<open>_load_metadata\<close> gives \<open>{}\<close> when the file
  is missing or unreadable, and each \<open>metadata.get\<close> has its default.
\<close>

definition initial_state :: "checkpoint option \<Rightarrow> run_state" where
  "initial_state file =
     \<lparr>existing_pr_numbers = (case file of None \<Rightarrow> {} | Some m \<Rightarrow> meta_processed_pr_numbers m),
      processed_with_python = (case file of None \<Rightarrow> 0 | Some m \<Rightarrow> meta_processed_with_python m),
      csv_file_counter = (case file of None \<Rightarrow> 0 | Some m \<Rightarrow> meta_csv_file_counter m),
      lowest_pr_number = (case file of None \<Rightarrow> None | Some m \<Rightarrow> meta_lowest_pr_number m),
      df_rows = [],
      skipped_no_python = 0,
      metadata_file = file,
      csv_log = [],
      submitted = []\<rparr>"

text \<open>\<open>_has_python_files\<close>\<close>

definition has_python_files :: "pr_dict \<Rightarrow> bool" where
  "has_python_files d =
     (case files_metrics d of
        None \<Rightarrow> False
      | Some fs \<Rightarrow> list_ex (\<lambda>f. endswith (filename f) ''.py'') fs)"

text \<open>
  \<open>_save_batch_to_separate_csv\<close>: returns \<open>rows_saved\<close>; every exception ends in
  \<open>return 0\<close>. The rows of the file are made by \<open>build_initial_pr_dataframe\<close>,
  one for each dictionary of the batch, with the \<open>number\<close> of the dictionary; it
  adds the aggregates and the labels to the dictionaries in place and removes \<open>body\<close>.
  The state keeps the dictionaries as \<open>fetch_single_pr\<close> returned them.
\<close>

definition save_batch_to_separate_csv :: "host \<Rightarrow> int \<Rightarrow> pr_dict list \<Rightarrow> run_state \<Rightarrow> nat \<times> run_state" where
  "save_batch_to_separate_csv h c rows st =
     (if rows = [] then (0, st)
      else (let rows_saved = csv_rows_read_back h c rows
            in (rows_saved, st\<lparr>csv_log := csv_log st @ [(c, rows, rows_saved)]\<rparr>)))"

text \<open>
  \<open>_save_metadata\<close>, called with the four values of the state. An exception is caught
  and only printed: the file is as it was when \<open>open\<close> raised, and unreadable when
  \<open>json.dump\<close> raised after \<open>open(..., "w")\<close> had emptied it.
\<close>

definition save_metadata :: "host \<Rightarrow> run_state \<Rightarrow> run_state" where
  "save_metadata h st =
     (case metadata_write h (csv_file_counter st) of
        Written \<Rightarrow>
          st\<lparr>metadata_file :=
               Some \<lparr>meta_processed_pr_numbers = existing_pr_numbers st,
                     meta_processed_with_python = processed_with_python st,
                     meta_csv_file_counter = csv_file_counter st,
                     meta_lowest_pr_number = lowest_pr_number st\<rparr>\<rparr>
      | NotOpened \<Rightarrow> st
      | Truncated \<Rightarrow> st\<lparr>metadata_file := None\<rparr>)"

section \<open>main.py: the loop of process\_repository\<close>

text \<open>
  The block under \<open>if len(df_rows) >= SAVE_EVERY\<close>: the counter grows, the batch is
  written, and only under \<open>if rows_saved > 0\<close> the cursor is set, the checkpoint is
  written and the batch is emptied.
\<close>

definition save_when_full :: "host \<Rightarrow> run_state \<Rightarrow> run_state" where
  "save_when_full h st =
     (if int (length (df_rows st)) \<ge> SAVE_EVERY
      then (let st1 = st\<lparr>csv_file_counter := csv_file_counter st + 1\<rparr>;
                (rows_saved, st2) =
                   save_batch_to_separate_csv h (csv_file_counter st1) (df_rows st1) st1
            in if rows_saved > 0
               then (let st3 = st2\<lparr>lowest_pr_number := Some (min_list (map number (df_rows st2)))\<rparr>;
                         st4 = save_metadata h st3
                     in st4\<lparr>df_rows := []\<rparr>)
               else st2)
      else st)"

text \<open>
  The body of \<open>for future in as_completed(future_to_pr)\<close> for the future of \<open>pr_obj\<close>.
  The second component says whether the \<open>break\<close> under
  \<open>if processed_with_python >= TARGET_PRS_WITH_PYTHON\<close> was taken. An exception of
  \<open>future.result()\<close> is caught and printed. The dictionary that \<open>fetch_single_pr\<close>
  returns is never empty, so \<open>if pr_dict\<close> holds.
\<close>

definition completed_item :: "host \<Rightarrow> nat \<Rightarrow> api_pull \<Rightarrow> run_state \<Rightarrow> run_state \<times> bool" where
  "completed_item h k pr_obj st =
     (case fetch_single_pr (respond h k (api_number pr_obj)) of
        Inl e \<Rightarrow> (st, False)
      | Inr d \<Rightarrow>
          if \<not> has_python_files d
          then (st\<lparr>skipped_no_python := skipped_no_python st + 1,
                   existing_pr_numbers := insert (api_number pr_obj) (existing_pr_numbers st)\<rparr>,
                False)
          else (let st1 = st\<lparr>df_rows := df_rows st @ [d],
                              existing_pr_numbers :=
                                insert (api_number pr_obj) (existing_pr_numbers st),
                              processed_with_python := processed_with_python st + 1\<rparr>;
                    st2 = save_when_full h st1
                in (st2, processed_with_python st2 \<ge> TARGET_PRS_WITH_PYTHON)))"

fun as_completed_loop :: "host \<Rightarrow> nat \<Rightarrow> api_pull list \<Rightarrow> run_state \<Rightarrow> run_state" where
  "as_completed_loop h k [] st = st"
| "as_completed_loop h k (pr_obj # rest) st =
     (case completed_item h k pr_obj st of
        (st', stop) \<Rightarrow> if stop then st' else as_completed_loop h k rest st')"

text \<open>The block under \<open>if df_rows and processed_with_python < TARGET_PRS_WITH_PYTHON\<close>.\<close>

definition save_remaining :: "host \<Rightarrow> run_state \<Rightarrow> run_state" where
  "save_remaining h st =
     (if df_rows st \<noteq> [] \<and> processed_with_python st < TARGET_PRS_WITH_PYTHON
      then (let st1 = st\<lparr>csv_file_counter := csv_file_counter st + 1\<rparr>;
                (rows_saved, st2) =
                   save_batch_to_separate_csv h (csv_file_counter st1) (df_rows st1) st1
            in if rows_saved > 0
               then (let st3 = st2\<lparr>lowest_pr_number := Some (min_list (map number (df_rows st2)))\<rparr>;
                         st4 = save_metadata h st3
                     in st4\<lparr>df_rows := []\<rparr>)
               else st2)
      else st)"

text \<open>The block under \<open>if existing_pr_numbers and not df_rows\<close>.\<close>

definition update_lowest :: "run_state \<Rightarrow> run_state" where
  "update_lowest st =
     (if existing_pr_numbers st \<noteq> {} \<and> df_rows st = []
      then (let current_min = Min (existing_pr_numbers st)
            in if (case lowest_pr_number st of None \<Rightarrow> True | Some l \<Rightarrow> current_min < l)
               then st\<lparr>lowest_pr_number := Some current_min\<rparr>
               else st)
      else st)"

text \<open>
  One pass of \<open>while processed_with_python < TARGET_PRS_WITH_PYTHON\<close>, number \<open>k\<close> of
  the run: the pass ends in \<open>continue\<close> or at the end of the body (\<open>Continue\<close>), in one
  of the two \<open>break\<close> (\<open>Break\<close>), or with the exception of the listing (\<open>Raise\<close>).
\<close>

datatype step = Continue run_state | Break run_state | Raise py_exception run_state

definition new_pr_objs_of :: "run_state \<Rightarrow> api_pull list \<Rightarrow> api_pull list" where
  "new_pr_objs_of st pr_objs = filter (\<lambda>pr. api_number pr \<notin> existing_pr_numbers st) pr_objs"

definition loop_body :: "host \<Rightarrow> nat \<Rightarrow> run_state \<Rightarrow> step" where
  "loop_body h k st =
     (case fetch_pr_list_descending (list_pulls h k) (lowest_pr_number st) FETCH_BATCH_SIZE of
        Inl e \<Rightarrow> Raise e st
      | Inr pr_objs \<Rightarrow>
          if pr_objs = [] then Break st
          else (let new_pr_objs = new_pr_objs_of st pr_objs
                in if new_pr_objs = []
                   then Continue (st\<lparr>lowest_pr_number :=
                                        Some (min_list (map api_number pr_objs) - 1)\<rparr>)
                   else (let st1 = st\<lparr>submitted := submitted st @ map api_number new_pr_objs\<rparr>;
                             st2 = as_completed_loop h k
                                     (completion_order (completion h k) new_pr_objs) st1;
                             st3 = save_remaining h st2;
                             st4 = update_lowest st3
                         in if processed_with_python st4 \<ge> TARGET_PRS_WITH_PYTHON
                            then Break st4 else Continue st4)))"

text \<open>
  The \<open>while\<close> loop can run for ever: \<open>fuel\<close> bounds the number of passes, and
  \<open>OutOfFuel\<close> is a run that has not ended after that many. Each outcome carries the
  state reached.
\<close>

datatype outcome = Finished run_state | Raised py_exception run_state | OutOfFuel run_state

fun state_of :: "outcome \<Rightarrow> run_state" where
  "state_of (Finished s) = s"
| "state_of (Raised e s) = s"
| "state_of (OutOfFuel s) = s"

fun while_loop :: "nat \<Rightarrow> host \<Rightarrow> nat \<Rightarrow> run_state \<Rightarrow> outcome" where
  "while_loop 0 h k st =
     (if processed_with_python st < TARGET_PRS_WITH_PYTHON then OutOfFuel st else Finished st)"
| "while_loop (Suc fuel) h k st =
     (if processed_with_python st < TARGET_PRS_WITH_PYTHON
      then (case loop_body h k st of
              Raise e s \<Rightarrow> Raised e s
            | Break s \<Rightarrow> Finished s
            | Continue s \<Rightarrow> while_loop fuel h (Suc k) s)
      else Finished st)"

definition process_repository :: "nat \<Rightarrow> host \<Rightarrow> checkpoint option \<Rightarrow> outcome" where
  "process_repository fuel h file =
     (let st = initial_state file;
          remaining = TARGET_PRS_WITH_PYTHON - processed_with_python st
      in if remaining \<le> 0 then Finished st else while_loop fuel h 0 st)"

text \<open>Two trees to run the visitor on: two \<open>if\<close> statements side by side at the top
  level of a module, and a \<open>for\<close> loop whose body holds an \<open>if\<close> that holds a \<open>with\<close>,
  followed by a \<open>while\<close> loop.\<close>

definition two_sibling_ifs :: node where
  "two_sibling_ifs =
     Node (ast_Other ''Module'')
       [Node ast_If [Node (ast_Other ''Name'') [], Node (ast_Other ''Pass'') []],
        Node ast_If [Node (ast_Other ''Name'') [], Node (ast_Other ''Pass'') []]]"

definition nested_three :: node where
  "nested_three =
     Node (ast_Other ''Module'')
       [Node ast_For
          [Node (ast_Other ''Name'') [],
           Node ast_If [Node (ast_Other ''Name'') [],
                        Node ast_With [Node (ast_Other ''Pass'') []]]],
        Node ast_While [Node (ast_Other ''Name'') [], Node (ast_Other ''Pass'') []]]"

text \<open>The three groups of metric keys of \<open>compute_python_metrics\<close>, one for each
  \<open>try\<close> block.\<close>

definition structural_keys :: "string list" where
  "structural_keys = [''max_nesting'', ''func_count'', ''max_args'', ''call_count'', ''if_count'',
     ''loop_count'']"

definition line_keys :: "string list" where
  "line_keys = [''loc'', ''lloc'', ''sloc'', ''comments'', ''multi_comments'', ''blank'']"

definition complexity_keys :: "string list" where
  "complexity_keys = [''avg_cc'', ''max_cc'']"

text \<open>Libraries to run the extractor with: every call raises; only the parser and
  \<open>cc_visit\<close> raise; every call returns.\<close>

definition all_fail_libs :: py_libs where
  "all_fail_libs =
     \<lparr>ast_parse = (\<lambda>s. Inl (PyException ''SyntaxError'')),
      raw_analyze = (\<lambda>s. Inl (PyException ''TokenError'')),
      cc_visit = (\<lambda>s. Inl (PyException ''SyntaxError''))\<rparr>"

definition parse_fails_libs :: py_libs where
  "parse_fails_libs =
     \<lparr>ast_parse = (\<lambda>s. Inl (PyException ''SyntaxError'')),
      raw_analyze = (\<lambda>s. Inr \<lparr>raw_loc = 2, raw_lloc = 1, raw_sloc = 1, raw_comments = 1,
                               raw_multi = 0, raw_blank = 0\<rparr>),
      cc_visit = (\<lambda>s. Inl (PyException ''SyntaxError''))\<rparr>"

definition all_ok_libs :: py_libs where
  "all_ok_libs =
     \<lparr>ast_parse = (\<lambda>s. Inr two_sibling_ifs),
      raw_analyze = (\<lambda>s. Inr \<lparr>raw_loc = 4, raw_lloc = 4, raw_sloc = 4, raw_comments = 0,
                               raw_multi = 0, raw_blank = 0\<rparr>),
      cc_visit = (\<lambda>s. Inr [])\<rparr>"

text \<open>
  The sample of the aggregator in the words of the specification: the values of the key
  in the files where the key is present, that is, bound to a value other than \<open>None\<close>.
\<close>

definition present_values :: "string \<Rightarrow> file_dict list \<Rightarrow> num list" where
  "present_values key fs =
     map (\<lambda>f. the (the (metric_fields f key)))
       (filter (\<lambda>f. metric_fields f key \<noteq> None \<and> metric_fields f key \<noteq> Some None) fs)"

text \<open>Four files of one pull request: \<open>loc\<close> is 2, 4 and 6 in three of them, \<open>avg_cc\<close>
  is \<open>None\<close> in one and 3.0 in another, \<open>lloc\<close> is in none, and one file has no content
  and so no metric key at all.\<close>

definition file_with :: "string \<Rightarrow> (string \<times> num option) list \<Rightarrow> file_dict" where
  "file_with name kvs = \<lparr>filename = name, content = Some ''x'', metric_fields = map_of kvs\<rparr>"

definition three_files :: "file_dict list" where
  "three_files =
     [file_with ''a.py'' [(''loc'', Some (PInt 2)), (''avg_cc'', None)],
      file_with ''b.txt'' [(''loc'', Some (PInt 4))],
      \<lparr>filename = ''empty.py'', content = None, metric_fields = Map.empty\<rparr>,
      file_with ''c.py'' [(''loc'', Some (PInt 6)), (''avg_cc'', Some (PFloat 3))]]"

text \<open>The three aggregates of a sample, as the loop body of the aggregator computes them.\<close>

definition aggregates_of :: "num list \<Rightarrow> num option \<times> num option \<times> num option" where
  "aggregates_of vals =
     (case vals of
        [] \<Rightarrow> (None, None, None)
      | v # vs \<Rightarrow> (Some (py_min_from v vs), Some (PFloat (np_mean (v # vs))),
                   Some (py_max_from v vs)))"




text \<open>A pull request as the host returns it, with no additions, an absent deletion count,
  three changed files and no commits, and the answers of the host around it.\<close>

definition sample_pull :: api_pull where
  "sample_pull =
     \<lparr>api_number = 7, api_title = Some ''Fix bug in parser'', api_body = Some '''',
      api_created_at = Some ''2024-01-01T00:00:00'', api_closed_at = Some ''2024-01-02T00:00:00'',
      api_merged_at = None, api_additions = Some 0, api_deletions = None,
      api_changed_files = Some 3, api_commits = Some 0, api_user = Some ''alice'',
      api_head_sha = ''abc''\<rparr>"

definition sample_responses :: github_responses where
  "sample_responses =
     \<lparr>get_repo = Inr (), get_pull = Inr sample_pull,
      get_issue_comments = Inr [], get_commits = Inr [], get_commits_again = Inr [],
      get_files = Inr [''parser.py''],
      get_contents = (\<lambda>f ref. Inr ''x = 1'')\<rparr>"

section \<open>Properties of a run\<close>

text \<open>
  The contract of the host that the claims on the rows of a batch rest on: asked for the
  pull request number \<open>n\<close>, the host returns the pull request with the number \<open>n\<close>.
  (The run adds \<open>pr_obj.number\<close> to the processed set and reads \<open>pr['number']\<close> of
  the returned dictionary for the cursor.)
\<close>

definition host_answers_for_requested :: "host \<Rightarrow> bool" where
  "host_answers_for_requested h =
     (\<forall>k n p. get_pull (respond h k n) = Inr p \<longrightarrow> api_number p = n)"

text \<open>
  What a run resumed from a checkpoint with the processed set \<open>P\<close> and the cursor \<open>C\<close>
  keeps true of its state: an identifier is allowed when it is not in \<open>P\<close> and below
  \<open>C\<close>; the processed set only grows, the cursor stays at or below \<open>C\<close>, and every
  identifier submitted, pending in the batch or handed to a batch file is allowed.
\<close>

definition allowed :: "int set \<Rightarrow> int option \<Rightarrow> int \<Rightarrow> bool" where
  "allowed P C n = (n \<notin> P \<and> (case C of None \<Rightarrow> True | Some c \<Rightarrow> n < c))"

definition cursor_within :: "int option \<Rightarrow> int option \<Rightarrow> bool" where
  "cursor_within C l =
     (case C of None \<Rightarrow> True
      | Some c \<Rightarrow> (case l of None \<Rightarrow> False | Some x \<Rightarrow> x \<le> c))"

definition resume_inv :: "int set \<Rightarrow> int option \<Rightarrow> run_state \<Rightarrow> bool" where
  "resume_inv P C st =
     (P \<subseteq> existing_pr_numbers st \<and>
      cursor_within C (lowest_pr_number st) \<and>
      list_all (allowed P C) (submitted st) \<and>
      list_all (\<lambda>r. allowed P C (number r)) (df_rows st) \<and>
      list_all (\<lambda>(c, rows, n). list_all (\<lambda>r. allowed P C (number r)) rows) (csv_log st))"

text \<open>
  The two save blocks of \<open>process_repository\<close> do one of three things to the state:
  nothing (the guard does not hold), a failed write (\<open>batch_failed\<close>: only the counter
  and the log change) or a successful one (\<open>batch_saved\<close>).
\<close>

definition batch_saved :: "host \<Rightarrow> run_state \<Rightarrow> run_state" where
  "batch_saved h st =
     (save_metadata h
        (st\<lparr>csv_file_counter := csv_file_counter st + 1,
            csv_log := csv_log st @ [(csv_file_counter st + 1, df_rows st,
                        csv_rows_read_back h (csv_file_counter st + 1) (df_rows st))],
            lowest_pr_number := Some (min_list (map number (df_rows st)))\<rparr>))
     \<lparr>df_rows := []\<rparr>"

definition batch_failed :: "host \<Rightarrow> run_state \<Rightarrow> run_state" where
  "batch_failed h st =
     st\<lparr>csv_file_counter := csv_file_counter st + 1,
        csv_log := csv_log st @ [(csv_file_counter st + 1, df_rows st, 0)]\<rparr>"

definition batch_outcome :: "host \<Rightarrow> run_state \<Rightarrow> run_state \<Rightarrow> bool" where
  "batch_outcome h st s =
     (s = st \<or>
      (df_rows st \<noteq> [] \<and>
       (let c = csv_file_counter st + 1;
            n = csv_rows_read_back h c (df_rows st);
            st2 = st\<lparr>csv_file_counter := c, csv_log := csv_log st @ [(c, df_rows st, n)]\<rparr>
        in if n > 0
           then s = (save_metadata h
                       (st2\<lparr>lowest_pr_number := Some (min_list (map number (df_rows st)))\<rparr>))
                    \<lparr>df_rows := []\<rparr>
           else s = st2)))"



text \<open>
  The number of new (not yet processed) pull requests that each listing pass of the loop
  gets, pass by pass, until the loop ends or the fuel is used up.
\<close>

fun new_items_per_pass :: "nat \<Rightarrow> host \<Rightarrow> nat \<Rightarrow> run_state \<Rightarrow> nat list" where
  "new_items_per_pass 0 h k st = []"
| "new_items_per_pass (Suc fuel) h k st =
     (if processed_with_python st < TARGET_PRS_WITH_PYTHON
      then (case fetch_pr_list_descending (list_pulls h k) (lowest_pr_number st) FETCH_BATCH_SIZE of
              Inl e \<Rightarrow> []
            | Inr pr_objs \<Rightarrow>
                length (new_pr_objs_of st pr_objs) #
                (case loop_body h k st of
                   Continue s \<Rightarrow> new_items_per_pass fuel h (Suc k) s
                 | Break s \<Rightarrow> []
                 | Raise e s \<Rightarrow> []))
      else [])"

text \<open>
  A host to run the loop against. Its first listing has two pages, with the pull
  requests 9 and 8, and 7, 6 (merged) and 5; every later listing is empty. Pull request
  7 changes \<open>parser.py\<close>, every other one \<open>README.md\<close>. Of two pending futures the
  second completes first. Every write succeeds. \<open>failing_csv_host\<close> is the same host
  with every batch write failing, and \<open>empty_host\<close> one whose listing is always empty.
\<close>

definition listed_pull :: "int \<Rightarrow> string option \<Rightarrow> api_pull" where
  "listed_pull n merged =
     \<lparr>api_number = n, api_title = Some ''Fix bug in parser'', api_body = None,
      api_created_at = Some ''2024-01-01T00:00:00'', api_closed_at = Some ''2024-01-02T00:00:00'',
      api_merged_at = merged, api_additions = Some 1, api_deletions = Some 1,
      api_changed_files = Some 1, api_commits = Some 1, api_user = Some ''alice'',
      api_head_sha = ''abc''\<rparr>"

definition resume_host :: host where
  "resume_host =
     \<lparr>list_pulls = (\<lambda>k. if k = 0
                          then Inr [[listed_pull 9 None, listed_pull 8 None],
                                    [listed_pull 7 None, listed_pull 6 (Some ''2024-01-03T00:00:00''),
                                     listed_pull 5 None]]
                          else Inr []),
      respond = (\<lambda>k n.
         \<lparr>get_repo = Inr (), get_pull = Inr (listed_pull n None),
          get_issue_comments = Inr [], get_commits = Inr [], get_commits_again = Inr [],
          get_files = Inr (if n = 7 then [''parser.py''] else [''README.md'']),
          get_contents = (\<lambda>f ref. Inr ''x = 1'')\<rparr>),
      completion = (\<lambda>k. [1]),
      csv_rows_read_back = (\<lambda>c rows. length rows),
      metadata_write = (\<lambda>c. Written)\<rparr>"

definition failing_csv_host :: host where
  "failing_csv_host = resume_host\<lparr>csv_rows_read_back := (\<lambda>c rows. 0)\<rparr>"

definition empty_host :: host where
  "empty_host =
     \<lparr>list_pulls = (\<lambda>k. Inr []),
      respond = respond resume_host,
      completion = (\<lambda>k. []),
      csv_rows_read_back = (\<lambda>c rows. length rows),
      metadata_write = (\<lambda>c. Written)\<rparr>"

text \<open>Two checkpoints with the cursor 9: one with pull request 8 processed, and one with
  8, 7 and 5 processed. \<open>one_row_state\<close> is the state of a run resumed from the first
  one after the future of pull request 7 has completed: one row is pending.\<close>

definition resume_checkpoint :: checkpoint where
  "resume_checkpoint =
     \<lparr>meta_processed_pr_numbers = {8}, meta_processed_with_python = 0,
      meta_csv_file_counter = 0, meta_lowest_pr_number = Some 9\<rparr>"

definition stale_checkpoint :: checkpoint where
  "stale_checkpoint =
     \<lparr>meta_processed_pr_numbers = {8, 7, 5}, meta_processed_with_python = 1,
      meta_csv_file_counter = 1, meta_lowest_pr_number = Some 9\<rparr>"

definition one_row_state :: run_state where
  "one_row_state =
     fst (completed_item resume_host 0 (listed_pull 7 None) (initial_state (Some resume_checkpoint)))"

section \<open>The nesting depth\<close>

lemma maxlist_append: "maxlist (xs @ ys) = max (maxlist xs) (maxlist ys)"
  by (induction xs) auto

lemma nesting_on_path_Cons:
  "nesting_on_path (k # p) = (if isinstance_nesting k then 1 else 0) + nesting_on_path p"
  by (auto simp: nesting_on_path_def nesting_construct_def isinstance_nesting_def)

lemma maxlist_map_add:
  "maxlist (map (\<lambda>p. b + f p) (q # ps)) = b + maxlist (map f (q # ps))"
  by (induction ps arbitrary: q) auto

lemma maxlist_concat_paths:
  "maxlist (map nesting_on_path (concat (map paths cs))) = maxlist (map max_simultaneous_nesting cs)"
  by (induction cs) (simp_all add: maxlist_append max_simultaneous_nesting_def)

lemma max_simultaneous_nesting_Node:
  "max_simultaneous_nesting (Node k cs) =
     (if isinstance_nesting k then 1 else 0) + maxlist (map max_simultaneous_nesting cs)"
proof -
  let ?ps = "concat (map paths cs)"
  let ?b = "if isinstance_nesting k then 1 else 0 :: nat"
  have "max_simultaneous_nesting (Node k cs) =
      max ?b (maxlist (map (\<lambda>p. ?b + nesting_on_path p) ?ps))"
    by (simp add: max_simultaneous_nesting_def comp_def nesting_on_path_Cons
        nesting_on_path_def [of "[]"])
  also have "\<dots> = ?b + maxlist (map nesting_on_path ?ps)"
  proof (cases ?ps)
    case Nil
    show ?thesis unfolding Nil by simp
  next
    case (Cons q qs)
    show ?thesis unfolding Cons maxlist_map_add by simp
  qed
  finally show ?thesis
    by (simp only: maxlist_concat_paths)
qed

text \<open>
  The invariant of the traversal: the counter never exceeds the maximum; a visit leaves
  the counter as it found it and raises the maximum to the counter plus the depth of the
  visited tree, when that is larger.
\<close>

lemma visit_depths:
  "current_depth v \<le> max_depth v \<Longrightarrow>
     max_depth (visit t v) = max (max_depth v) (current_depth v + int (max_simultaneous_nesting t)) \<and>
     current_depth (visit t v) = current_depth v"
  "current_depth v \<le> max_depth v \<Longrightarrow>
     max_depth (generic_visit t v) = max (max_depth v) (current_depth v + int (max_simultaneous_nesting t)) \<and>
     current_depth (generic_visit t v) = current_depth v"
  "current_depth v \<le> max_depth v \<Longrightarrow>
     max_depth (visit_fields cs v) =
        max (max_depth v) (current_depth v + int (maxlist (map max_simultaneous_nesting cs))) \<and>
     current_depth (visit_fields cs v) = current_depth v"
proof (induction t v and t v and cs v rule: visit_generic_visit_visit_fields.induct)
  case (1 k cs v)
  then show ?case by (cases k) simp_all
next
  case (2 k cs v)
  then show ?case
    by (auto simp: max_simultaneous_nesting_Node Let_def)
next
  case (3 v)
  then show ?case by simp
next
  case (4 c cs v)
  then show ?case by (auto simp: max_def)
qed

text \<open>
  C4. For every syntax tree, the \<open>max_nesting\<close> that the extractor records is the largest
  number of \<open>if\<close>, \<open>for\<close>, \<open>while\<close>, \<open>with\<close> and \<open>try\<close> constructs that are open at the
  same time on a path from the root, and the depth counter is back at its starting value
  when the traversal ends: the depth is the maximum of the simultaneous nesting, not a
  count of the constructs of the file.
\<close>

theorem max_nesting_is_max_simultaneous_depth:
  "max_depth (visit tree ASTMetricsVisitor) = int (max_simultaneous_nesting tree) \<and>
   current_depth (visit tree ASTMetricsVisitor) = 0 \<and>
   ast_metrics_of (Inr tree) ''max_nesting'' =
     Some (Some (PInt (int (max_simultaneous_nesting tree))))"
  using visit_depths(1) [of ASTMetricsVisitor tree]
  by (simp add: ASTMetricsVisitor_def ast_metrics_of_def Let_def)

text \<open>Two sibling \<open>if\<close> blocks give the depth 1 although the file has two constructs;
  the nested tree has four constructs and the depth 3.\<close>

theorem max_nesting_is_max_simultaneous_depth_witness:
  "max_depth (visit two_sibling_ifs ASTMetricsVisitor) = 1 \<and>
   max_simultaneous_nesting two_sibling_ifs = 1 \<and>
   total_constructs two_sibling_ifs = 2 \<and>
   max_depth (visit nested_three ASTMetricsVisitor) = 3 \<and>
   total_constructs nested_three = 4"
proof -
  have a: "max_simultaneous_nesting two_sibling_ifs = 1"
    by (simp add: two_sibling_ifs_def max_simultaneous_nesting_Node isinstance_nesting_def)
  have b: "max_simultaneous_nesting nested_three = 3"
    by (simp add: nested_three_def max_simultaneous_nesting_Node isinstance_nesting_def)
  have c: "total_constructs two_sibling_ifs = 2" "total_constructs nested_three = 4"
    by (simp_all add: two_sibling_ifs_def nested_three_def nesting_construct_def)
  show ?thesis
    using max_nesting_is_max_simultaneous_depth [of two_sibling_ifs]
      max_nesting_is_max_simultaneous_depth [of nested_three] a b c
    by simp
qed

section \<open>The metric keys of the extractor\<close>

lemma dom_compute_python_metrics:
  "dom (compute_python_metrics libs c) = set metric_keys"
  by (auto simp: compute_python_metrics_def ast_metrics_of_def metric_keys_def Let_def
      split: sum.splits prod.splits list.splits)

lemma dom_compute_basic_metrics:
  "dom (compute_basic_metrics c) = set metric_keys - {''lloc''}"
  by (auto simp: compute_basic_metrics_def metric_keys_def Let_def)

text \<open>
  C1. The claim is that both extractor paths return all 14 metric keys. The parser path
  does (\<open>dom_compute_python_metrics\<close>, and the model of either path is a total function:
  no exception leaves it). The heuristic path returns 13 keys: the dictionary literal of
  \<open>compute_basic_metrics\<close> has no \<open>lloc\<close>. On the one-line text \<open>x = 1\<close>, taken as the
  content of \<open>README.md\<close>, the key \<open>lloc\<close> is missing from the returned dictionary and
  from the file dictionary after the update, while \<open>multi_comments\<close> is there with
  \<open>None\<close>.
\<close>

theorem heuristic_path_omits_lloc:
  "''lloc'' \<in> set metric_keys \<and>
   compute_basic_metrics ''x = 1'' ''lloc'' = None \<and>
   compute_basic_metrics ''x = 1'' ''multi_comments'' = Some None \<and>
   compute_basic_metrics ''x = 1'' ''loc'' = Some (Some (PInt 1)) \<and>
   metric_fields (extract_file libs
      \<lparr>filename = ''README.md'', content = Some ''x = 1'', metric_fields = Map.empty\<rparr>) ''lloc'' = None \<and>
   dom (compute_basic_metrics ''x = 1'') \<noteq> set metric_keys"
proof -
  have "''lloc'' \<notin> dom (compute_basic_metrics ''x = 1'')" "''lloc'' \<in> set metric_keys"
    unfolding dom_compute_basic_metrics by (simp_all add: metric_keys_def)
  then have "dom (compute_basic_metrics ''x = 1'') \<noteq> set metric_keys"
    by metis
  moreover have "compute_basic_metrics ''x = 1'' ''loc'' = Some (Some (PInt 1))"
    by (simp add: compute_basic_metrics_def Let_def splitlines_def line_boundary_def)
  ultimately show ?thesis
    by (simp add: extract_file_def endswith_def compute_basic_metrics_def Let_def metric_keys_def)
qed

text \<open>
  C3. On the parser path each of the three groups of fields depends on its own library
  call only. When \<open>ast.parse\<close> raises, the six structural fields are all \<open>None\<close>; when
  it returns, all six are the integers the visitor counted: never some of them. When
  \<open>radon.raw.analyze\<close> raises, the six line fields are \<open>None\<close>, and when it returns they
  are its six numbers, whatever the parser did; when \<open>cc_visit\<close> raises, both
  complexity fields are \<open>None\<close>. In every case the function returns a dictionary with
  the 14 keys: no failure leaves it.
\<close>

theorem python_path_degrades_by_group:
  "(ast_parse libs c = Inl e1 \<longrightarrow>
      list_all (\<lambda>k. compute_python_metrics libs c k = Some None) structural_keys) \<and>
   (raw_analyze libs c = Inl e2 \<longrightarrow>
      list_all (\<lambda>k. compute_python_metrics libs c k = Some None) line_keys) \<and>
   (cc_visit libs c = Inl e3 \<longrightarrow>
      list_all (\<lambda>k. compute_python_metrics libs c k = Some None) complexity_keys) \<and>
   (ast_parse libs c = Inr t \<longrightarrow>
      list_all (\<lambda>k. compute_python_metrics libs c k = ast_metrics_of (Inr t) k \<and>
                    (\<exists>i. ast_metrics_of (Inr t) k = Some (Some (PInt i)))) structural_keys) \<and>
   (raw_analyze libs c = Inr raw \<longrightarrow>
      map (compute_python_metrics libs c) line_keys =
        map (\<lambda>i. Some (Some (PInt i)))
          [raw_loc raw, raw_lloc raw, raw_sloc raw, raw_comments raw, raw_multi raw, raw_blank raw]) \<and>
   dom (compute_python_metrics libs c) = set metric_keys"
proof -
  have "dom (compute_python_metrics libs c) = set metric_keys"
    by (rule dom_compute_python_metrics)
  moreover have "ast_parse libs c = Inl e1 \<longrightarrow>
      list_all (\<lambda>k. compute_python_metrics libs c k = Some None) structural_keys"
    by (simp add: compute_python_metrics_def ast_metrics_of_def structural_keys_def Let_def
        split: sum.splits prod.splits list.splits)
  moreover have "raw_analyze libs c = Inl e2 \<longrightarrow>
      list_all (\<lambda>k. compute_python_metrics libs c k = Some None) line_keys"
    by (simp add: compute_python_metrics_def line_keys_def Let_def
        split: sum.splits prod.splits list.splits)
  moreover have "cc_visit libs c = Inl e3 \<longrightarrow>
      list_all (\<lambda>k. compute_python_metrics libs c k = Some None) complexity_keys"
    by (simp add: compute_python_metrics_def complexity_keys_def Let_def
        split: sum.splits prod.splits list.splits)
  moreover have "ast_parse libs c = Inr t \<longrightarrow>
      list_all (\<lambda>k. compute_python_metrics libs c k = ast_metrics_of (Inr t) k \<and>
                    (\<exists>i. ast_metrics_of (Inr t) k = Some (Some (PInt i)))) structural_keys"
    by (simp add: compute_python_metrics_def ast_metrics_of_def structural_keys_def Let_def
        split: sum.splits prod.splits list.splits)
  moreover have "raw_analyze libs c = Inr raw \<longrightarrow>
      map (compute_python_metrics libs c) line_keys =
        map (\<lambda>i. Some (Some (PInt i)))
          [raw_loc raw, raw_lloc raw, raw_sloc raw, raw_comments raw, raw_multi raw, raw_blank raw]"
    by (simp add: compute_python_metrics_def line_keys_def Let_def
        split: sum.splits prod.splits list.splits)
  ultimately show ?thesis by blast
qed

text \<open>With every library raising all 14 fields are \<open>None\<close>; with only the parser and
  \<open>cc_visit\<close> raising the line fields keep the numbers of \<open>radon\<close>; with a parsed tree
  of two \<open>if\<close> statements the six structural fields are 1, 0, 0, 0, 2, 0.\<close>

theorem python_path_degrades_by_group_witness:
  "map (compute_python_metrics all_fail_libs ''def f(:'') metric_keys =
      map (\<lambda>k. Some None) metric_keys \<and>
   map (compute_python_metrics parse_fails_libs ''def f(:'') structural_keys =
      map (\<lambda>k. Some None) structural_keys \<and>
   map (compute_python_metrics parse_fails_libs ''def f(:'') line_keys =
      map (\<lambda>i. Some (Some (PInt i))) [2, 1, 1, 1, 0, 0] \<and>
   map (compute_python_metrics all_ok_libs ''if a: pass'') structural_keys =
      map (\<lambda>i. Some (Some (PInt i))) [1, 0, 0, 0, 2, 0] \<and>
   dom (compute_python_metrics all_fail_libs ''def f(:'') = set metric_keys"
  using python_path_degrades_by_group [of all_fail_libs "''def f(:''" "PyException ''SyntaxError''"
          "PyException ''TokenError''" "PyException ''SyntaxError''"]
        python_path_degrades_by_group [of parse_fails_libs "''def f(:''" "PyException ''SyntaxError''"
          _ _ _  "\<lparr>raw_loc = 2, raw_lloc = 1, raw_sloc = 1, raw_comments = 1,
                               raw_multi = 0, raw_blank = 0\<rparr>"]
        python_path_degrades_by_group [of all_ok_libs "''if a: pass''" _ _ _ two_sibling_ifs]
  by (simp add: all_fail_libs_def parse_fails_libs_def all_ok_libs_def structural_keys_def
      line_keys_def complexity_keys_def metric_keys_def ast_metrics_of_def two_sibling_ifs_def
      ASTMetricsVisitor_def isinstance_nesting_def Let_def compute_python_metrics_def)

section \<open>The aggregator\<close>

lemma values_of_present: "values_of key fs = present_values key fs"
  by (induction fs)
     (auto simp: values_of_def present_values_def List.map_filter_simps dict_get_def
           split: option.splits)

lemma py_min_from_mem: "py_min_from v vs \<in> set (v # vs)"
  by (induction vs arbitrary: v) auto

lemma py_max_from_mem: "py_max_from v vs \<in> set (v # vs)"
  by (induction vs arbitrary: v) auto

lemma py_min_from_fold:
  "to_real (py_min_from v vs) = fold min (map to_real vs) (to_real v)"
proof (induction vs arbitrary: v)
  case Nil
  then show ?case by simp
next
  case (Cons x xs)
  have "to_real (if to_real x < to_real v then x else v) = min (to_real x) (to_real v)"
    by (simp add: min_def)
  then show ?case by (simp add: Cons.IH)
qed

lemma py_max_from_fold:
  "to_real (py_max_from v vs) = fold max (map to_real vs) (to_real v)"
proof (induction vs arbitrary: v)
  case Nil
  then show ?case by simp
next
  case (Cons x xs)
  have "to_real (if to_real x > to_real v then x else v) = max (to_real x) (to_real v)"
    by (simp add: max_def)
  then show ?case by (simp add: Cons.IH)
qed

lemma py_min_from_Min: "to_real (py_min_from v vs) = Min (to_real ` set (v # vs))"
  using Min.set_eq_fold [of "to_real v" "map to_real vs"]
  by (simp add: py_min_from_fold)

lemma py_max_from_Max: "to_real (py_max_from v vs) = Max (to_real ` set (v # vs))"
  using Max.set_eq_fold [of "to_real v" "map to_real vs"]
  by (simp add: py_max_from_fold)

text \<open>The names \<open>min_K\<close>, \<open>avg_K\<close> and \<open>max_K\<close> of two keys never collide.\<close>

lemma aggregate_names [simp]:
  "(''min_'' @ k = ''min_'' @ k') = (k = k')" "(''avg_'' @ k = ''avg_'' @ k') = (k = k')"
  "(''max_'' @ k = ''max_'' @ k') = (k = k')"
  "''min_'' @ k \<noteq> ''avg_'' @ k'" "''min_'' @ k \<noteq> ''max_'' @ k'"
  "''avg_'' @ k \<noteq> ''min_'' @ k'" "''avg_'' @ k \<noteq> ''max_'' @ k'"
  "''max_'' @ k \<noteq> ''min_'' @ k'" "''max_'' @ k \<noteq> ''avg_'' @ k'"
  by simp_all

lemma fold_aggregate_lookup:
  "fold (aggregate_key fs) ks m (''min_'' @ k) =
     (if k \<in> set ks then Some (fst (aggregates_of (values_of k fs))) else m (''min_'' @ k))"
  "fold (aggregate_key fs) ks m (''avg_'' @ k) =
     (if k \<in> set ks then Some (fst (snd (aggregates_of (values_of k fs)))) else m (''avg_'' @ k))"
  "fold (aggregate_key fs) ks m (''max_'' @ k) =
     (if k \<in> set ks then Some (snd (snd (aggregates_of (values_of k fs)))) else m (''max_'' @ k))"
  by (induction ks arbitrary: m; simp add: aggregate_key_def aggregates_of_def split: list.splits)+

text \<open>
  C2. For every list of file dictionaries and each of the 14 metric keys: when no file
  has a value for the key, the three aggregates of the key are \<open>None\<close>; otherwise the
  minimum and the maximum are items of the sample of the present values with the least
  and the greatest value, and the mean is the sum of the sample over its length (as a
  float); a sample of one value \<open>v\<close> gives \<open>v\<close> three times (the mean as a float). Files where the key is missing or \<open>None\<close> are not in the sample. A pull
  request whose \<open>files_metrics\<close> is \<open>None\<close> or empty gets \<open>None\<close> for every
  aggregate: the function is total.
\<close>

theorem aggregate_is_min_mean_max_of_present:
  assumes "key \<in> set metric_keys"
  shows "(present_values key fs = [] \<longrightarrow>
            aggregate_file_metrics (Some fs) (''min_'' @ key) = Some None \<and>
            aggregate_file_metrics (Some fs) (''avg_'' @ key) = Some None \<and>
            aggregate_file_metrics (Some fs) (''max_'' @ key) = Some None) \<and>
         (present_values key fs \<noteq> [] \<longrightarrow>
            (\<exists>lo hi.
               aggregate_file_metrics (Some fs) (''min_'' @ key) = Some (Some lo) \<and>
               lo \<in> set (present_values key fs) \<and>
               to_real lo = Min (to_real ` set (present_values key fs)) \<and>
               aggregate_file_metrics (Some fs) (''avg_'' @ key) =
                 Some (Some (PFloat (sum_list (map to_real (present_values key fs)) /
                                     real (length (present_values key fs))))) \<and>
               aggregate_file_metrics (Some fs) (''max_'' @ key) = Some (Some hi) \<and>
               hi \<in> set (present_values key fs) \<and>
               to_real hi = Max (to_real ` set (present_values key fs)))) \<and>
         (present_values key fs = [v] \<longrightarrow>
            aggregate_file_metrics (Some fs) (''min_'' @ key) = Some (Some v) \<and>
            aggregate_file_metrics (Some fs) (''avg_'' @ key) = Some (Some (PFloat (to_real v))) \<and>
            aggregate_file_metrics (Some fs) (''max_'' @ key) = Some (Some v)) \<and>
         aggregate_file_metrics None = aggregate_file_metrics (Some []) \<and>
         aggregate_file_metrics (Some []) (''min_'' @ key) = Some None \<and>
         aggregate_file_metrics (Some []) (''avg_'' @ key) = Some None \<and>
         aggregate_file_metrics (Some []) (''max_'' @ key) = Some None"
proof -
  have look:
     "aggregate_file_metrics (Some gs) (''min_'' @ key) =
        Some (fst (aggregates_of (present_values key gs)))"
     "aggregate_file_metrics (Some gs) (''avg_'' @ key) =
        Some (fst (snd (aggregates_of (present_values key gs))))"
     "aggregate_file_metrics (Some gs) (''max_'' @ key) =
        Some (snd (snd (aggregates_of (present_values key gs))))"
    for gs
    unfolding aggregate_file_metrics_def Let_def option.case fold_aggregate_lookup values_of_present
    using assms by simp_all
  have empty: "present_values key [] = []" by (simp add: present_values_def)
  have none: "aggregate_file_metrics None = aggregate_file_metrics (Some [])"
    by (simp add: aggregate_file_metrics_def)
  show ?thesis
  proof (cases "present_values key fs")
    case Nil
    then show ?thesis using look [of fs] look [of "[]"] empty none
      by (simp add: aggregates_of_def)
  next
    case (Cons v vs)
    have "py_min_from v vs \<in> set (v # vs)" "py_max_from v vs \<in> set (v # vs)"
      by (rule py_min_from_mem, rule py_max_from_mem)
    then show ?thesis using look [of fs] look [of "[]"] empty none Cons
        py_min_from_Min [of v vs] py_max_from_Max [of v vs]
      by (simp add: aggregates_of_def np_mean_def)
  qed
qed

text \<open>The values 2, 4 and 6 of \<open>loc\<close> give 2, 4.0 and 6; the single present value 3.0 of
  \<open>avg_cc\<close> (the other files have \<open>None\<close> or no such key) gives 3.0 three times; \<open>lloc\<close>,
  present in no file, gives \<open>None\<close> three times, as does every key for no files.\<close>

theorem aggregate_is_min_mean_max_of_present_witness:
  "''loc'' \<in> set metric_keys \<and> ''avg_cc'' \<in> set metric_keys \<and> ''lloc'' \<in> set metric_keys \<and>
   present_values ''loc'' three_files = [PInt 2, PInt 4, PInt 6] \<and>
   aggregate_file_metrics (Some three_files) ''min_loc'' = Some (Some (PInt 2)) \<and>
   aggregate_file_metrics (Some three_files) ''avg_loc'' = Some (Some (PFloat 4)) \<and>
   aggregate_file_metrics (Some three_files) ''max_loc'' = Some (Some (PInt 6)) \<and>
   present_values ''avg_cc'' three_files = [PFloat 3] \<and>
   aggregate_file_metrics (Some three_files) ''min_avg_cc'' = Some (Some (PFloat 3)) \<and>
   aggregate_file_metrics (Some three_files) ''avg_avg_cc'' = Some (Some (PFloat 3)) \<and>
   aggregate_file_metrics (Some three_files) ''max_avg_cc'' = Some (Some (PFloat 3)) \<and>
   present_values ''lloc'' three_files = [] \<and>
   aggregate_file_metrics (Some three_files) ''min_lloc'' = Some None \<and>
   aggregate_file_metrics (Some three_files) ''avg_lloc'' = Some None \<and>
   aggregate_file_metrics (Some three_files) ''max_lloc'' = Some None \<and>
   aggregate_file_metrics None ''min_loc'' = Some None"
proof -
  have k: "''loc'' \<in> set metric_keys" "''avg_cc'' \<in> set metric_keys" "''lloc'' \<in> set metric_keys"
    by (simp_all add: metric_keys_def)
  have p: "present_values ''loc'' three_files = [PInt 2, PInt 4, PInt 6]"
    "present_values ''avg_cc'' three_files = [PFloat 3]"
    "present_values ''lloc'' three_files = []"
    by (simp_all add: three_files_def present_values_def file_with_def)
  note t1 = aggregate_is_min_mean_max_of_present [OF k(1), of three_files, unfolded p]
  note t2 = aggregate_is_min_mean_max_of_present [OF k(2), of three_files, unfolded p]
  note t3 = aggregate_is_min_mean_max_of_present [OF k(3), of three_files, unfolded p]
  have mn: "Min (to_real ` set [PInt 2, PInt 4, PInt 6]) = 2"
    and mx: "Max (to_real ` set [PInt 2, PInt 4, PInt 6]) = 6"
    by simp_all
  from t1 obtain lo hi where
    lo: "aggregate_file_metrics (Some three_files) (''min_'' @ ''loc'') = Some (Some lo)"
      "lo \<in> set [PInt 2, PInt 4, PInt 6]" "to_real lo = 2"
    and av: "aggregate_file_metrics (Some three_files) (''avg_'' @ ''loc'') = Some (Some (PFloat 4))"
    and hi: "aggregate_file_metrics (Some three_files) (''max_'' @ ''loc'') = Some (Some hi)"
      "hi \<in> set [PInt 2, PInt 4, PInt 6]" "to_real hi = 6"
    unfolding mn mx by fastforce
  have "lo = PInt 2" "hi = PInt 6" using lo(2,3) hi(2,3) by auto
  moreover have "aggregate_file_metrics None ''min_loc'' = Some None"
    using t1 by simp
  ultimately have loc:
    "aggregate_file_metrics (Some three_files) ''min_loc'' = Some (Some (PInt 2)) \<and>
     aggregate_file_metrics (Some three_files) ''avg_loc'' = Some (Some (PFloat 4)) \<and>
     aggregate_file_metrics (Some three_files) ''max_loc'' = Some (Some (PInt 6)) \<and>
     aggregate_file_metrics None ''min_loc'' = Some None"
    using lo(1) av hi(1) by simp
  from t2 obtain lo' hi' where
    lo': "aggregate_file_metrics (Some three_files) (''min_'' @ ''avg_cc'') = Some (Some lo')"
      "lo' \<in> set [PFloat 3]"
    and av': "aggregate_file_metrics (Some three_files) (''avg_'' @ ''avg_cc'') = Some (Some (PFloat 3))"
    and hi': "aggregate_file_metrics (Some three_files) (''max_'' @ ''avg_cc'') = Some (Some hi')"
      "hi' \<in> set [PFloat 3]"
    by fastforce
  then have cc:
    "aggregate_file_metrics (Some three_files) ''min_avg_cc'' = Some (Some (PFloat 3)) \<and>
     aggregate_file_metrics (Some three_files) ''avg_avg_cc'' = Some (Some (PFloat 3)) \<and>
     aggregate_file_metrics (Some three_files) ''max_avg_cc'' = Some (Some (PFloat 3))"
    by simp
  have lloc:
    "aggregate_file_metrics (Some three_files) ''min_lloc'' = Some None \<and>
     aggregate_file_metrics (Some three_files) ''avg_lloc'' = Some None \<and>
     aggregate_file_metrics (Some three_files) ''max_lloc'' = Some None"
    using t3 by simp
  show ?thesis using k p loc cc lloc by blast
qed

section \<open>The keyword labels\<close>











section \<open>The counts of a fetched pull request\<close>

text \<open>
  C10. When the host returns the pull request, \<open>fetch_single_pr\<close> returns a dictionary
  in which each of \<open>additions\<close>, \<open>deletions\<close>, \<open>changed_files\<close> and \<open>commits\<close> is
  \<open>-1\<close> when the count of the host is 0 or absent, and the count itself otherwise. A
  pull request with four counts of 0 and one with four absent counts give the same
  dictionary: the reader of the dictionary cannot tell them apart.
\<close>

theorem zero_counts_are_stored_as_minus_one:
  assumes "get_repo r = Inr u" "get_pull r = Inr pr"
  shows "(\<exists>d. fetch_single_pr r = Inr d \<and>
            additions d = (case api_additions pr of None \<Rightarrow> - 1 | Some n \<Rightarrow> if n = 0 then - 1 else n) \<and>
            deletions d = (case api_deletions pr of None \<Rightarrow> - 1 | Some n \<Rightarrow> if n = 0 then - 1 else n) \<and>
            changed_files d =
              (case api_changed_files pr of None \<Rightarrow> - 1 | Some n \<Rightarrow> if n = 0 then - 1 else n) \<and>
            commits d = (case api_commits pr of None \<Rightarrow> - 1 | Some n \<Rightarrow> if n = 0 then - 1 else n)) \<and>
         fetch_single_pr (r\<lparr>get_pull := Inr (pr\<lparr>api_additions := Some 0, api_deletions := Some 0,
                                   api_changed_files := Some 0, api_commits := Some 0\<rparr>)\<rparr>) =
         fetch_single_pr (r\<lparr>get_pull := Inr (pr\<lparr>api_additions := None, api_deletions := None,
                                   api_changed_files := None, api_commits := None\<rparr>)\<rparr>)"
proof -
  have files: "fetch_files (r\<lparr>get_pull := p\<rparr>) (q\<lparr>api_additions := a, api_deletions := b,
         api_changed_files := c, api_commits := d\<rparr>) = fetch_files r q" for p q a b c d
    by (simp add: fetch_files_def Let_def split: sum.splits)
  have "\<exists>d. fetch_single_pr r = Inr d \<and>
            additions d = (case api_additions pr of None \<Rightarrow> - 1 | Some n \<Rightarrow> if n = 0 then - 1 else n) \<and>
            deletions d = (case api_deletions pr of None \<Rightarrow> - 1 | Some n \<Rightarrow> if n = 0 then - 1 else n) \<and>
            changed_files d =
              (case api_changed_files pr of None \<Rightarrow> - 1 | Some n \<Rightarrow> if n = 0 then - 1 else n) \<and>
            commits d = (case api_commits pr of None \<Rightarrow> - 1 | Some n \<Rightarrow> if n = 0 then - 1 else n)"
    using assms by (simp add: fetch_single_pr_def int_or_def)
  moreover have
    "fetch_single_pr (r\<lparr>get_pull := Inr (pr\<lparr>api_additions := Some 0, api_deletions := Some 0,
                                   api_changed_files := Some 0, api_commits := Some 0\<rparr>)\<rparr>) =
     fetch_single_pr (r\<lparr>get_pull := Inr (pr\<lparr>api_additions := None, api_deletions := None,
                                   api_changed_files := None, api_commits := None\<rparr>)\<rparr>)"
    using assms(1) by (simp add: fetch_single_pr_def int_or_def files)
  ultimately show ?thesis by blast
qed

text \<open>Additions 0, deletions absent, 3 changed files and 0 commits are stored as
  \<open>-1\<close>, \<open>-1\<close>, 3 and \<open>-1\<close>.\<close>

theorem zero_counts_are_stored_as_minus_one_witness:
  "get_repo sample_responses = Inr () \<and> get_pull sample_responses = Inr sample_pull \<and>
   api_additions sample_pull = Some 0 \<and> api_deletions sample_pull = None \<and>
   api_changed_files sample_pull = Some 3 \<and> api_commits sample_pull = Some 0 \<and>
   map_sum id (\<lambda>d. (additions d, deletions d, changed_files d, commits d))
     (fetch_single_pr sample_responses) = Inr (- 1, - 1, 3, - 1)"
  using zero_counts_are_stored_as_minus_one [of sample_responses "()" sample_pull]
  by (auto simp: sample_responses_def sample_pull_def)

section \<open>The run: resumption\<close>

lemma fetch_single_pr_number:
  "fetch_single_pr r = Inr d \<Longrightarrow> \<exists>p. get_pull r = Inr p \<and> number d = api_number p"
  by (auto simp: fetch_single_pr_def split: sum.splits)

lemma page_items_loop_below:
  "list_all Q all_prs \<Longrightarrow>
   (\<And>pr. pr \<in> set page \<Longrightarrow> (case mx of None \<Rightarrow> True | Some m \<Rightarrow> api_number pr < m) \<Longrightarrow>
           api_merged_at pr = None \<Longrightarrow> Q pr) \<Longrightarrow>
   list_all Q (page_items_loop mx max_prs page all_prs)"
proof (induction page arbitrary: all_prs)
  case Nil
  then show ?case by simp
next
  case (Cons pr rest)
  then show ?case
    by (auto simp: Let_def split: option.splits)
qed

lemma pages_loop_below:
  "list_all Q all_prs \<Longrightarrow>
   (\<And>pr. (case mx of None \<Rightarrow> True | Some m \<Rightarrow> api_number pr < m) \<Longrightarrow>
           api_merged_at pr = None \<Longrightarrow> Q pr) \<Longrightarrow>
   list_all Q (pages_loop mx max_prs pages all_prs)"
proof (induction pages arbitrary: all_prs)
  case Nil
  then show ?case by simp
next
  case (Cons page later)
  then show ?case
    by (auto intro!: Cons.IH page_items_loop_below)
qed

lemma listing_below_cursor:
  "fetch_pr_list_descending listing mx max_prs = Inr prs \<Longrightarrow>
   list_all (\<lambda>pr. (case mx of None \<Rightarrow> True | Some m \<Rightarrow> api_number pr < m) \<and>
                  api_merged_at pr = None) prs"
  by (auto simp: fetch_pr_list_descending_def split: sum.splits intro!: pages_loop_below)

lemma set_completion_order: "set (completion_order cs xs) \<subseteq> set xs"
proof (induction cs arbitrary: xs)
  case Nil
  then show ?case by simp
next
  case (Cons c cs)
  show ?case
  proof (cases "xs = []")
    case True
    then show ?thesis by simp
  next
    case False
    let ?i = "c mod length xs"
    have i: "?i < length xs" using False by simp
    have "set (take ?i xs @ drop (Suc ?i) xs) \<subseteq> set xs"
      by (auto dest: in_set_takeD in_set_dropD)
    with Cons.IH [of "take ?i xs @ drop (Suc ?i) xs"] i False show ?thesis
      by (auto simp: Let_def)
  qed
qed

lemma save_metadata_fields [simp]:
  "existing_pr_numbers (save_metadata h st) = existing_pr_numbers st"
  "processed_with_python (save_metadata h st) = processed_with_python st"
  "csv_file_counter (save_metadata h st) = csv_file_counter st"
  "lowest_pr_number (save_metadata h st) = lowest_pr_number st"
  "df_rows (save_metadata h st) = df_rows st"
  "skipped_no_python (save_metadata h st) = skipped_no_python st"
  "csv_log (save_metadata h st) = csv_log st"
  "submitted (save_metadata h st) = submitted st"
  by (simp_all add: save_metadata_def split: write_outcome.splits)

lemma batch_outcome_cases:
  assumes "batch_outcome h st s"
  obtains (kept) "s = st"
    | (failed) "df_rows st \<noteq> []"
        "csv_rows_read_back h (csv_file_counter st + 1) (df_rows st) = 0" "s = batch_failed h st"
    | (saved) "df_rows st \<noteq> []"
        "0 < csv_rows_read_back h (csv_file_counter st + 1) (df_rows st)" "s = batch_saved h st"
  using assms unfolding batch_outcome_def batch_saved_def batch_failed_def Let_def
  by (cases "0 < csv_rows_read_back h (csv_file_counter st + 1) (df_rows st)") auto

lemma save_when_full_outcome: "batch_outcome h st (save_when_full h st)"
  by (auto simp: batch_outcome_def save_when_full_def save_batch_to_separate_csv_def
      Let_def SAVE_EVERY_def)

lemma save_remaining_outcome: "batch_outcome h st (save_remaining h st)"
  by (auto simp: batch_outcome_def save_remaining_def save_batch_to_separate_csv_def Let_def)

lemma min_list_in_set: "xs \<noteq> [] \<Longrightarrow> min_list xs \<in> set (xs :: int list)"
  by (simp add: min_list_Min)

lemma batch_outcome_inv:
  assumes "batch_outcome h st s" "resume_inv P C st"
  shows "resume_inv P C s"
proof -
  have low: "min_list (map number (df_rows st)) < c"
    if "C = Some c" "df_rows st \<noteq> []" for c
  proof -
    have "min_list (map number (df_rows st)) \<in> set (map number (df_rows st))"
      using that(2) by (intro min_list_in_set) simp
    then obtain r where "r \<in> set (df_rows st)" "min_list (map number (df_rows st)) = number r"
      by auto
    then show ?thesis
      using assms(2) that(1) by (auto simp: resume_inv_def list_all_iff allowed_def)
  qed
  from assms(1) show ?thesis
  proof (cases rule: batch_outcome_cases)
    case kept
    then show ?thesis using assms(2) by simp
  next
    case failed
    then show ?thesis using assms(2) by (simp add: resume_inv_def batch_failed_def)
  next
    case saved
    then show ?thesis using assms(2) low
      by (cases C) (auto simp: resume_inv_def cursor_within_def batch_saved_def less_imp_le)
  qed
qed

lemma update_lowest_inv:
  assumes "resume_inv P C st"
  shows "resume_inv P C (update_lowest st)"
  using assms
  by (auto simp: update_lowest_def resume_inv_def cursor_within_def Let_def split: option.splits)

lemma completed_item_inv:
  assumes "resume_inv P C st" "allowed P C (api_number pr_obj)" "host_answers_for_requested h"
  shows "resume_inv P C (fst (completed_item h k pr_obj st))"
proof (cases "fetch_single_pr (respond h k (api_number pr_obj))")
  case (Inl e)
  then show ?thesis using assms(1) by (simp add: completed_item_def)
next
  case (Inr d)
  then have num: "number d = api_number pr_obj"
    using assms(3) fetch_single_pr_number [OF Inr]
    by (auto simp: host_answers_for_requested_def)
  show ?thesis
  proof (cases "has_python_files d")
    case False
    then show ?thesis using Inr assms(1)
      by (auto simp: completed_item_def resume_inv_def)
  next
    case True
    let ?st1 = "st\<lparr>df_rows := df_rows st @ [d],
                   existing_pr_numbers := insert (api_number pr_obj) (existing_pr_numbers st),
                   processed_with_python := processed_with_python st + 1\<rparr>"
    have "resume_inv P C ?st1"
      using assms(1,2) num by (auto simp: resume_inv_def)
    then have "resume_inv P C (save_when_full h ?st1)"
      by (rule batch_outcome_inv [OF save_when_full_outcome])
    then show ?thesis using Inr True
      by (simp add: completed_item_def Let_def)
  qed
qed

lemma as_completed_loop_inv:
  assumes "host_answers_for_requested h"
  shows "resume_inv P C st \<Longrightarrow> list_all (\<lambda>pr. allowed P C (api_number pr)) prs \<Longrightarrow>
         resume_inv P C (as_completed_loop h k prs st)"
proof (induction prs arbitrary: st)
  case Nil
  then show ?case by simp
next
  case (Cons pr rest)
  have "resume_inv P C (fst (completed_item h k pr st))"
    using Cons.prems assms by (intro completed_item_inv) simp_all
  then show ?case
    using Cons.IH [of "fst (completed_item h k pr st)"] Cons.prems(2)
    by (auto split: prod.splits)
qed

lemma loop_body_inv:
  assumes "host_answers_for_requested h" "resume_inv P C st"
  shows "case loop_body h k st of Continue s \<Rightarrow> resume_inv P C s
         | Break s \<Rightarrow> resume_inv P C s | Raise e s \<Rightarrow> resume_inv P C s"
proof (cases "fetch_pr_list_descending (list_pulls h k) (lowest_pr_number st) FETCH_BATCH_SIZE")
  case (Inl e)
  then show ?thesis using assms(2) by (simp add: loop_body_def)
next
  case (Inr pr_objs)
  note below = listing_below_cursor [OF Inr]
  have ok: "allowed P C (api_number pr)"
    if "pr \<in> set pr_objs" "api_number pr \<notin> existing_pr_numbers st" for pr
  proof -
    have "(case lowest_pr_number st of None \<Rightarrow> True | Some m \<Rightarrow> api_number pr < m)"
      using below that(1) by (auto simp: list_all_iff)
    then show ?thesis using assms(2) that(2)
      by (auto simp: resume_inv_def cursor_within_def allowed_def split: option.splits)
  qed
  show ?thesis
  proof (cases "pr_objs = []")
    case True
    then show ?thesis using Inr assms(2) by (simp add: loop_body_def)
  next
    case False
    show ?thesis
    proof (cases "new_pr_objs_of st pr_objs = []")
      case True
      have "min_list (map api_number pr_objs) \<in> set (map api_number pr_objs)"
        using False by (intro min_list_in_set) simp
      then obtain pr where pr: "pr \<in> set pr_objs" "min_list (map api_number pr_objs) = api_number pr"
        by auto
      then have "(case lowest_pr_number st of None \<Rightarrow> True | Some m \<Rightarrow> api_number pr < m)"
        using below by (auto simp: list_all_iff)
      then have "resume_inv P C (st\<lparr>lowest_pr_number := Some (min_list (map api_number pr_objs) - 1)\<rparr>)"
        using assms(2) pr(2) by (auto simp: resume_inv_def cursor_within_def split: option.splits)
      then show ?thesis using Inr False True by (simp add: loop_body_def Let_def)
    next
      case new: False
      let ?new = "new_pr_objs_of st pr_objs"
      let ?st1 = "st\<lparr>submitted := submitted st @ map api_number ?new\<rparr>"
      have all_new: "list_all (\<lambda>pr. allowed P C (api_number pr)) ?new"
        using ok by (auto simp: new_pr_objs_of_def list_all_iff)
      then have "resume_inv P C ?st1"
        using assms(2) by (auto simp: resume_inv_def list_all_iff)
      moreover have "list_all (\<lambda>pr. allowed P C (api_number pr))
                       (completion_order (completion h k) ?new)"
        using all_new set_completion_order [of "completion h k" ?new]
        by (auto simp: list_all_iff)
      ultimately have "resume_inv P C (as_completed_loop h k
                          (completion_order (completion h k) ?new) ?st1)"
        using assms(1) by (intro as_completed_loop_inv)
      then have "resume_inv P C (update_lowest (save_remaining h (as_completed_loop h k
                          (completion_order (completion h k) ?new) ?st1)))"
        by (intro update_lowest_inv batch_outcome_inv [OF save_remaining_outcome])
      then show ?thesis using Inr False new by (simp add: loop_body_def Let_def)
    qed
  qed
qed

lemma while_loop_inv:
  assumes "host_answers_for_requested h"
  shows "resume_inv P C st \<Longrightarrow> resume_inv P C (state_of (while_loop fuel h k st))"
proof (induction fuel arbitrary: k st)
  case 0
  then show ?case by simp
next
  case (Suc fuel)
  show ?case
    using loop_body_inv [OF assms Suc.prems, of k] Suc.IH Suc.prems
    by (auto split: step.splits)
qed

text \<open>The definitions that a run on a concrete host unfolds to.\<close>

lemmas run_defs = process_repository_def initial_state_def resume_checkpoint_def resume_host_def
      TARGET_PRS_WITH_PYTHON_def FETCH_BATCH_SIZE_def SAVE_EVERY_def numeral_2_eq_2
      loop_body_def fetch_pr_list_descending_def listed_pull_def new_pr_objs_of_def Let_def
      completed_item_def fetch_single_pr_def fetch_files_def has_python_files_def endswith_def
      save_when_full_def save_remaining_def save_batch_to_separate_csv_def save_metadata_def
      update_lowest_def int_or_def str_or_None_def stale_checkpoint_def failing_csv_host_def
      one_row_state_def empty_host_def

lemma resume_run:
  "submitted (state_of (process_repository 2 resume_host (Some resume_checkpoint))) = [7, 5]"
  "map (\<lambda>(c, rows, n). (c, map number rows, n))
     (csv_log (state_of (process_repository 2 resume_host (Some resume_checkpoint)))) = [(1, [7], 1)]"
  "df_rows (state_of (process_repository 2 resume_host (Some resume_checkpoint))) = []"
  "existing_pr_numbers (state_of (process_repository 2 resume_host (Some resume_checkpoint))) = {7, 5, 8}"
  "lowest_pr_number (state_of (process_repository 2 resume_host (Some resume_checkpoint))) = Some 5"
  by (simp_all add: run_defs)

text \<open>
  C5. Let a run start from a checkpoint with the processed set \<open>P\<close> and the cursor \<open>C\<close>,
  against a host that answers a request for a pull request with that pull request. In
  the state reached after any number of passes (whether the run has ended, has raised or
  goes on), every pull request submitted for processing, every row pending in the batch
  and every row handed to a batch file has an identifier that is not in \<open>P\<close> and, when
  the checkpoint has a cursor, is below \<open>C\<close>. The listing itself never returns an
  identifier at or above the cursor it is called with, whatever pages the host sends.
\<close>

theorem resumed_run_skips_processed_and_cursor:
  assumes "host_answers_for_requested h"
    and "s = state_of (process_repository fuel h (Some ck))"
    and "P = meta_processed_pr_numbers ck"
    and "C = meta_lowest_pr_number ck"
  shows "(\<forall>n \<in> set (submitted s). n \<notin> P \<and> (\<forall>c. C = Some c \<longrightarrow> n < c)) \<and>
         (\<forall>(counter, rows, rows_saved) \<in> set (csv_log s).
            \<forall>r \<in> set rows. number r \<notin> P \<and> (\<forall>c. C = Some c \<longrightarrow> number r < c)) \<and>
         (\<forall>r \<in> set (df_rows s). number r \<notin> P \<and> (\<forall>c. C = Some c \<longrightarrow> number r < c)) \<and>
         (\<forall>listing c max_prs prs.
            fetch_pr_list_descending listing (Some c) max_prs = Inr prs \<longrightarrow>
            (\<forall>pr \<in> set prs. api_number pr < c))"
proof -
  have "resume_inv P C (initial_state (Some ck))"
    using assms(3,4)
    by (cases "meta_lowest_pr_number ck")
       (simp_all add: resume_inv_def initial_state_def cursor_within_def)
  then have "resume_inv P C s"
    unfolding assms(2) process_repository_def Let_def
    using while_loop_inv [OF assms(1)] by simp
  moreover have "\<forall>pr \<in> set prs. api_number pr < c"
    if "fetch_pr_list_descending listing (Some c) max_prs = Inr prs" for listing c max_prs prs
    using listing_below_cursor [OF that] by (auto simp: list_all_iff)
  ultimately show ?thesis
    by (auto simp: resume_inv_def allowed_def list_all_iff)
qed

text \<open>
  The host lists 9, 8, 7, 6 and 5; the checkpoint has \<open>P = {8}\<close> and \<open>C = 9\<close>. The run
  submits 7 and 5 only, and its one batch file holds the row of 7.
\<close>

theorem resumed_run_skips_processed_and_cursor_witness:
  "host_answers_for_requested resume_host \<and>
   meta_processed_pr_numbers resume_checkpoint = {8} \<and>
   meta_lowest_pr_number resume_checkpoint = Some 9 \<and>
   map (map api_number) (projr (list_pulls resume_host 0)) = [[9, 8], [7, 6, 5]] \<and>
   submitted (state_of (process_repository 2 resume_host (Some resume_checkpoint))) = [7, 5] \<and>
   map (\<lambda>(c, rows, n). (c, map number rows, n))
     (csv_log (state_of (process_repository 2 resume_host (Some resume_checkpoint)))) = [(1, [7], 1)] \<and>
   list_all (\<lambda>n. n \<notin> {8} \<and> n < 9)
     (submitted (state_of (process_repository 2 resume_host (Some resume_checkpoint)))) \<and>
   list_all (\<lambda>(c, rows, n). list_all (\<lambda>r. number r \<notin> {8} \<and> number r < 9) rows)
     (csv_log (state_of (process_repository 2 resume_host (Some resume_checkpoint))))"
proof -
  have h: "host_answers_for_requested resume_host"
    by (simp add: host_answers_for_requested_def resume_host_def listed_pull_def)
  have c: "meta_processed_pr_numbers resume_checkpoint = {8}"
    "meta_lowest_pr_number resume_checkpoint = Some 9"
    by (simp_all add: resume_checkpoint_def)
  have l: "map (map api_number) (projr (list_pulls resume_host 0)) = [[9, 8], [7, 6, 5]]"
    by (simp add: resume_host_def listed_pull_def)
  note t = resumed_run_skips_processed_and_cursor [OF h refl c [symmetric], of 2]
  from t have "list_all (\<lambda>n. n \<notin> {8} \<and> n < 9)
     (submitted (state_of (process_repository 2 resume_host (Some resume_checkpoint))))"
    by (simp add: list_all_iff)
  moreover from t have
    "list_all (\<lambda>(c, rows, n). list_all (\<lambda>r. number r \<notin> {8} \<and> number r < 9) rows)
     (csv_log (state_of (process_repository 2 resume_host (Some resume_checkpoint))))"
    by (simp add: list_all_iff case_prod_unfold)
  ultimately show ?thesis using h c l resume_run(1,2) by blast
qed

section \<open>The run: a completed item\<close>

lemma endswith_suffix: "endswith s p = suffix p s"
proof
  assume "endswith s p"
  then have "s = take (length s - length p) s @ p"
    by (metis append_take_drop_id endswith_def)
  then show "suffix p s" unfolding suffix_def by blast
next
  assume "suffix p s"
  then obtain zs where "s = zs @ p" unfolding suffix_def by blast
  then show "endswith s p" by (simp add: endswith_def)
qed

lemma has_python_files_iff:
  "has_python_files d =
     (\<exists>fs f. files_metrics d = Some fs \<and> f \<in> set fs \<and> suffix ''.py'' (filename f))"
  by (auto simp: has_python_files_def endswith_suffix list_ex_iff split: option.splits)

text \<open>
  C6. Let the future of \<open>pr_obj\<close> return the dictionary \<open>d\<close>. If no file of \<open>d\<close> has a
  name that ends in \<open>.py\<close> (or \<open>d\<close> has no file list), the identifier is added to the
  processed set, the pending batch and the counter are as before, the count of skipped
  items grows by one and nothing is written. Otherwise the identifier is added to the
  processed set, the counter grows by one, and \<open>d\<close> is the last row of the pending
  batch, or the batch with \<open>d\<close> as its last row has just been written with success and
  the pending batch is empty. In both cases a later listing pass no longer counts the
  identifier as new.
\<close>

theorem item_without_python_is_processed_not_batched:
  assumes "fetch_single_pr (respond h k (api_number pr_obj)) = Inr d"
    and "s = fst (completed_item h k pr_obj st)"
  shows "(\<not> (\<exists>fs f. files_metrics d = Some fs \<and> f \<in> set fs \<and> suffix ''.py'' (filename f)) \<longrightarrow>
            existing_pr_numbers s = insert (api_number pr_obj) (existing_pr_numbers st) \<and>
            df_rows s = df_rows st \<and>
            processed_with_python s = processed_with_python st \<and>
            skipped_no_python s = skipped_no_python st + 1 \<and>
            csv_log s = csv_log st \<and> metadata_file s = metadata_file st) \<and>
         ((\<exists>fs f. files_metrics d = Some fs \<and> f \<in> set fs \<and> suffix ''.py'' (filename f)) \<longrightarrow>
            existing_pr_numbers s = insert (api_number pr_obj) (existing_pr_numbers st) \<and>
            processed_with_python s = processed_with_python st + 1 \<and>
            skipped_no_python s = skipped_no_python st \<and>
            (df_rows s = df_rows st @ [d] \<or>
             df_rows s = [] \<and>
             (\<exists>n. 0 < n \<and> csv_log s = csv_log st @ [(csv_file_counter st + 1, df_rows st @ [d], n)]))) \<and>
         (\<forall>pr_objs. api_number pr_obj \<notin> api_number ` set (new_pr_objs_of s pr_objs))"
proof (cases "has_python_files d")
  case False
  then show ?thesis
    using assms has_python_files_iff [of d]
    by (auto simp: completed_item_def new_pr_objs_of_def)
next
  case True
  let ?st1 = "st\<lparr>df_rows := df_rows st @ [d],
                 existing_pr_numbers := insert (api_number pr_obj) (existing_pr_numbers st),
                 processed_with_python := processed_with_python st + 1\<rparr>"
  have s: "s = save_when_full h ?st1"
    using assms True by (simp add: completed_item_def Let_def)
  have "batch_outcome h ?st1 s" unfolding s by (rule save_when_full_outcome)
  then show ?thesis
  proof (cases rule: batch_outcome_cases)
    case kept
    show ?thesis using True has_python_files_iff [of d]
      unfolding kept by (auto simp: new_pr_objs_of_def)
  next
    case failed
    show ?thesis using True has_python_files_iff [of d]
      unfolding failed(3) by (auto simp: new_pr_objs_of_def batch_failed_def)
  next
    case saved
    show ?thesis using True has_python_files_iff [of d] saved(2)
      unfolding saved(3) by (auto simp: new_pr_objs_of_def batch_saved_def)
  qed
qed

text \<open>Pull request 5 (only \<open>README.md\<close>) is marked processed and not batched; pull
  request 7 (\<open>parser.py\<close>) is marked processed, batched and counted.\<close>

theorem item_without_python_is_processed_not_batched_witness:
  "map_sum id (\<lambda>d. (number d, map_option (map filename) (files_metrics d)))
      (fetch_single_pr (respond resume_host 0 5)) = Inr (5, Some [''README.md'']) \<and>
   map_sum id (\<lambda>d. (number d, map_option (map filename) (files_metrics d)))
      (fetch_single_pr (respond resume_host 0 7)) = Inr (7, Some [''parser.py'']) \<and>
   existing_pr_numbers (fst (completed_item resume_host 0 (listed_pull 5 None)
      (initial_state (Some resume_checkpoint)))) = {5, 8} \<and>
   df_rows (fst (completed_item resume_host 0 (listed_pull 5 None)
      (initial_state (Some resume_checkpoint)))) = [] \<and>
   processed_with_python (fst (completed_item resume_host 0 (listed_pull 5 None)
      (initial_state (Some resume_checkpoint)))) = 0 \<and>
   skipped_no_python (fst (completed_item resume_host 0 (listed_pull 5 None)
      (initial_state (Some resume_checkpoint)))) = 1 \<and>
   existing_pr_numbers (fst (completed_item resume_host 0 (listed_pull 7 None)
      (initial_state (Some resume_checkpoint)))) = {7, 8} \<and>
   map number (df_rows (fst (completed_item resume_host 0 (listed_pull 7 None)
      (initial_state (Some resume_checkpoint))))) = [7] \<and>
   processed_with_python (fst (completed_item resume_host 0 (listed_pull 7 None)
      (initial_state (Some resume_checkpoint)))) = 1"
proof -
  let ?st = "initial_state (Some resume_checkpoint)"
  obtain d5 where d5: "fetch_single_pr (respond resume_host 0 (api_number (listed_pull 5 None))) = Inr d5"
    and f5: "files_metrics d5 = Some [\<lparr>filename = ''README.md'', content = Some ''x = 1'',
                                     metric_fields = Map.empty\<rparr>]" "number d5 = 5"
    by (simp add: run_defs)
  obtain d7 where d7: "fetch_single_pr (respond resume_host 0 (api_number (listed_pull 7 None))) = Inr d7"
    and f7: "files_metrics d7 = Some [\<lparr>filename = ''parser.py'', content = Some ''x = 1'',
                                     metric_fields = Map.empty\<rparr>]" "number d7 = 7"
    by (simp add: run_defs)
  have n5: "\<not> (\<exists>fs f. files_metrics d5 = Some fs \<and> f \<in> set fs \<and> suffix ''.py'' (filename f))"
    unfolding f5 by (simp add: suffix_def)
  have p7: "\<exists>fs f. files_metrics d7 = Some fs \<and> f \<in> set fs \<and> suffix ''.py'' (filename f)"
    unfolding f7 by (simp add: suffix_def)
  have st: "existing_pr_numbers ?st = {8}" "df_rows ?st = []" "processed_with_python ?st = 0"
    "skipped_no_python ?st = 0" "csv_log ?st = []"
    by (simp_all add: initial_state_def resume_checkpoint_def)
  note t5 = item_without_python_is_processed_not_batched [OF d5 refl, of ?st]
  note t7 = item_without_python_is_processed_not_batched [OF d7 refl, of ?st]
  have a5: "existing_pr_numbers (fst (completed_item resume_host 0 (listed_pull 5 None) ?st)) = {5, 8}"
    "df_rows (fst (completed_item resume_host 0 (listed_pull 5 None) ?st)) = []"
    "processed_with_python (fst (completed_item resume_host 0 (listed_pull 5 None) ?st)) = 0"
    "skipped_no_python (fst (completed_item resume_host 0 (listed_pull 5 None) ?st)) = 1"
    using t5 n5 st by (simp_all add: listed_pull_def)
  have a7: "existing_pr_numbers (fst (completed_item resume_host 0 (listed_pull 7 None) ?st)) = {7, 8}"
    "processed_with_python (fst (completed_item resume_host 0 (listed_pull 7 None) ?st)) = 1"
    using t7 p7 st by (simp_all add: listed_pull_def)
  have b7: "map number (df_rows (fst (completed_item resume_host 0 (listed_pull 7 None) ?st))) = [7]"
    by (simp add: run_defs)
  have e: "map_sum id (\<lambda>d. (number d, map_option (map filename) (files_metrics d)))
      (fetch_single_pr (respond resume_host 0 5)) = Inr (5, Some [''README.md''])"
    "map_sum id (\<lambda>d. (number d, map_option (map filename) (files_metrics d)))
      (fetch_single_pr (respond resume_host 0 7)) = Inr (7, Some [''parser.py''])"
    by (simp_all add: run_defs)
  show ?thesis using e a5 a7 b7 by blast
qed

section \<open>The run: a failed batch write\<close>










section \<open>The run: the end of the loop\<close>

text \<open>
  C8, as stated, fails: the loop does not wait for two listing passes in a row without
  new items. Against a host with no closed, unmerged pull request a fresh run ends after
  its first listing pass (one pass, zero new items), with the counter at 0.
\<close>

theorem loop_ends_after_one_empty_listing:
  "process_repository 5 empty_host None = Finished (initial_state None) \<and>
   new_items_per_pass 5 empty_host 0 (initial_state None) = [0] \<and>
   processed_with_python (initial_state None) = 0 \<and>
   \<not> TARGET_PRS_WITH_PYTHON \<le> processed_with_python (initial_state None)"
  by (simp add: process_repository_def initial_state_def empty_host_def loop_body_def
      fetch_pr_list_descending_def TARGET_PRS_WITH_PYTHON_def new_pr_objs_of_def
      eval_nat_numeral)

text \<open>
  C8, amended. A pass of the loop ends the loop (\<open>break\<close>) when its listing is empty,
  that is, when the host has no closed, unmerged pull request below the cursor: one such
  pass is enough. A pass whose listing is not empty but holds no new pull request never
  ends the loop: it lowers the cursor to the least listed identifier minus one and
  continues, however many such passes come in a row. A pass that ends the loop has an
  empty listing or has brought the counter to the target; a pass that continues leaves
  the counter below the target. So the loop ends without an exception only with the
  counter at or above the target or on an empty listing, and it ends at once when the
  counter is at or above the target.
\<close>

theorem loop_ends_on_target_or_empty_listing:
  "(fetch_pr_list_descending (list_pulls h k) (lowest_pr_number st) FETCH_BATCH_SIZE = Inr [] \<longrightarrow>
      loop_body h k st = Break st) \<and>
   (\<forall>prs. fetch_pr_list_descending (list_pulls h k) (lowest_pr_number st) FETCH_BATCH_SIZE = Inr prs \<and>
          prs \<noteq> [] \<and> new_pr_objs_of st prs = [] \<longrightarrow>
      loop_body h k st =
        Continue (st\<lparr>lowest_pr_number := Some (min_list (map api_number prs) - 1)\<rparr>)) \<and>
   (\<forall>s. loop_body h k st = Break s \<longrightarrow>
      fetch_pr_list_descending (list_pulls h k) (lowest_pr_number st) FETCH_BATCH_SIZE = Inr [] \<and> s = st \<or>
      TARGET_PRS_WITH_PYTHON \<le> processed_with_python s) \<and>
   (\<forall>s. loop_body h k st = Continue s \<and> processed_with_python st < TARGET_PRS_WITH_PYTHON \<longrightarrow>
      processed_with_python s < TARGET_PRS_WITH_PYTHON) \<and>
   (\<forall>s. while_loop fuel h k st = Finished s \<longrightarrow>
      TARGET_PRS_WITH_PYTHON \<le> processed_with_python s \<or>
      (\<exists>j. k \<le> j \<and>
         fetch_pr_list_descending (list_pulls h j) (lowest_pr_number s) FETCH_BATCH_SIZE = Inr [])) \<and>
   (TARGET_PRS_WITH_PYTHON \<le> processed_with_python st \<longrightarrow> while_loop fuel h k st = Finished st) \<and>
   (processed_with_python st < TARGET_PRS_WITH_PYTHON \<and>
    fetch_pr_list_descending (list_pulls h k) (lowest_pr_number st) FETCH_BATCH_SIZE = Inr [] \<longrightarrow>
      while_loop (Suc fuel) h k st = Finished st)"
proof -
  have brk: "fetch_pr_list_descending (list_pulls h k) (lowest_pr_number st) FETCH_BATCH_SIZE = Inr [] \<and> s = st \<or>
      TARGET_PRS_WITH_PYTHON \<le> processed_with_python s"
    if "loop_body h k st = Break s" for h k st s
    using that
    by (auto simp: loop_body_def Let_def split: sum.splits if_splits)
  have cont: "processed_with_python s < TARGET_PRS_WITH_PYTHON"
    if "loop_body h k st = Continue s" "processed_with_python st < TARGET_PRS_WITH_PYTHON" for s
    using that
    by (auto simp: loop_body_def Let_def split: sum.splits if_splits)
  have fin: "TARGET_PRS_WITH_PYTHON \<le> processed_with_python s \<or>
      (\<exists>j. k \<le> j \<and>
         fetch_pr_list_descending (list_pulls h j) (lowest_pr_number s) FETCH_BATCH_SIZE = Inr [])"
    if "while_loop fuel h k st = Finished s" for s
    using that
  proof (induction fuel arbitrary: k st)
    case 0
    then show ?case by (auto split: if_splits)
  next
    case (Suc fuel)
    show ?case
    proof (cases "processed_with_python st < TARGET_PRS_WITH_PYTHON")
      case False
      then show ?thesis using Suc.prems by auto
    next
      case True
      show ?thesis
      proof (cases "loop_body h k st")
        case (Continue s')
        then have "while_loop fuel h (Suc k) s' = Finished s" using Suc.prems True by simp
        from Suc.IH [OF this] show ?thesis by (auto intro: Suc_leD)
      next
        case (Break s')
        then have "s' = s" using Suc.prems True by simp
        then show ?thesis using brk [OF Break] by auto
      next
        case (Raise e s')
        then show ?thesis using Suc.prems True by simp
      qed
    qed
  qed
  have tgt: "while_loop fuel h k st = Finished st"
    if "TARGET_PRS_WITH_PYTHON \<le> processed_with_python st"
    using that by (cases fuel) simp_all
  have empty: "loop_body h k st = Break st"
    if "fetch_pr_list_descending (list_pulls h k) (lowest_pr_number st) FETCH_BATCH_SIZE = Inr []"
    using that by (simp add: loop_body_def)
  have zero: "loop_body h k st =
        Continue (st\<lparr>lowest_pr_number := Some (min_list (map api_number prs) - 1)\<rparr>)"
    if "fetch_pr_list_descending (list_pulls h k) (lowest_pr_number st) FETCH_BATCH_SIZE = Inr prs"
       "prs \<noteq> []" "new_pr_objs_of st prs = []" for prs
    using that by (simp add: loop_body_def Let_def)
  have one: "while_loop (Suc fuel) h k st = Finished st"
    if "processed_with_python st < TARGET_PRS_WITH_PYTHON"
       "fetch_pr_list_descending (list_pulls h k) (lowest_pr_number st) FETCH_BATCH_SIZE = Inr []"
    using that empty by simp
  show ?thesis using brk [of h k st] cont fin tgt empty zero one by blast
qed

text \<open>
  Resumed with 8, 7 and 5 processed, the first pass lists 8, 7 and 5, finds nothing new
  and continues with the cursor 4; the second pass lists nothing and ends the loop, with
  the counter at 1.
\<close>

theorem loop_ends_on_target_or_empty_listing_witness:
  "fetch_pr_list_descending (list_pulls resume_host 1)
      (lowest_pr_number (initial_state (Some stale_checkpoint))) FETCH_BATCH_SIZE = Inr [] \<and>
   loop_body resume_host 1 (initial_state (Some stale_checkpoint)) =
      Break (initial_state (Some stale_checkpoint)) \<and>
   map_sum id (map api_number) (fetch_pr_list_descending (list_pulls resume_host 0)
      (lowest_pr_number (initial_state (Some stale_checkpoint))) FETCH_BATCH_SIZE) = Inr [8, 7, 5] \<and>
   loop_body resume_host 0 (initial_state (Some stale_checkpoint)) =
      Continue ((initial_state (Some stale_checkpoint))\<lparr>lowest_pr_number := Some 4\<rparr>) \<and>
   while_loop 2 resume_host 0 (initial_state (Some stale_checkpoint)) =
      Finished ((initial_state (Some stale_checkpoint))\<lparr>lowest_pr_number := Some 4\<rparr>) \<and>
   new_items_per_pass 2 resume_host 0 (initial_state (Some stale_checkpoint)) = [0, 0] \<and>
   processed_with_python (initial_state (Some stale_checkpoint)) < TARGET_PRS_WITH_PYTHON"
proof -
  let ?st = "initial_state (Some stale_checkpoint)"
  have e: "fetch_pr_list_descending (list_pulls resume_host 1) (lowest_pr_number ?st)
             FETCH_BATCH_SIZE = Inr []"
    by (simp add: run_defs)
  obtain prs where l: "fetch_pr_list_descending (list_pulls resume_host 0) (lowest_pr_number ?st)
             FETCH_BATCH_SIZE = Inr prs" and p: "map api_number prs = [8, 7, 5]"
    by (simp add: run_defs)
  have n: "prs \<noteq> []" "new_pr_objs_of ?st prs = []" "min_list (map api_number prs) - 1 = 4"
    using l p by (auto simp: run_defs)
  note t0 = loop_ends_on_target_or_empty_listing [of resume_host 0 ?st]
  note t1 = loop_ends_on_target_or_empty_listing [of resume_host 1 ?st]
  have b: "loop_body resume_host 1 ?st = Break ?st" using t1 e by blast
  have "loop_body resume_host 0 ?st =
      Continue (?st\<lparr>lowest_pr_number := Some (min_list (map api_number prs) - 1)\<rparr>)"
    using t0 l n(1,2) by blast
  then have c: "loop_body resume_host 0 ?st = Continue (?st\<lparr>lowest_pr_number := Some 4\<rparr>)"
    by (simp only: n(3))
  have w: "while_loop 2 resume_host 0 ?st = Finished (?st\<lparr>lowest_pr_number := Some 4\<rparr>)"
    "new_items_per_pass 2 resume_host 0 ?st = [0, 0]"
    "processed_with_python ?st < TARGET_PRS_WITH_PYTHON"
    by (simp_all add: run_defs)
  have m: "map_sum id (map api_number) (fetch_pr_list_descending (list_pulls resume_host 0)
      (lowest_pr_number ?st) FETCH_BATCH_SIZE) = Inr [8, 7, 5]"
    using l p by simp
  show ?thesis using e b m c w by blast
qed

end
